theory Spec2Isabelle
  imports Complex_Main "HOL-Library.FSet" "HOL-Library.Sublist"
begin

section \<open>Strings of the card texts\<close>

text \<open>
  A JavaScript string is modelled as a \<^typ>\<open>string\<close>: a list of code units, each below 256
  (the Latin-1 part of UTF-16). A field that may be \<^verbatim>\<open>undefined\<close> is a
  \<^typ>\<open>string option\<close>, with \<^term>\<open>None\<close> for \<^verbatim>\<open>undefined\<close>.
\<close>

type_synonym jstext = "string option"

definition code :: "char \<Rightarrow> nat" where
  "code c = of_char c"

text \<open>\<^verbatim>\<open>String.prototype.toLowerCase\<close> on code units below 256: A-Z and the
  accented capitals 0xC0-0xDE (but not the multiplication sign 0xD7) move up by 32.\<close>

definition lowerChar :: "char \<Rightarrow> char" where
  "lowerChar c =
     (let n = code c
      in if (65 \<le> n \<and> n \<le> 90) \<or> (192 \<le> n \<and> n \<le> 222 \<and> n \<noteq> 215)
         then char_of (n + 32) else c)"

definition toLowerCase :: "string \<Rightarrow> string" where
  "toLowerCase s = map lowerChar s"

text \<open>The regular-expression classes \<^verbatim>\<open>\w\<close>, \<^verbatim>\<open>\s\<close> and \<^verbatim>\<open>\d\<close>.\<close>

definition isDigit :: "char \<Rightarrow> bool" where
  "isDigit c = (48 \<le> code c \<and> code c \<le> 57)"

definition isWordChar :: "char \<Rightarrow> bool" where
  "isWordChar c =
     (let n = code c
      in (97 \<le> n \<and> n \<le> 122) \<or> (65 \<le> n \<and> n \<le> 90) \<or> (48 \<le> n \<and> n \<le> 57) \<or> n = 95)"

definition isSpace :: "char \<Rightarrow> bool" where
  "isSpace c = (code c \<in> {9, 10, 11, 12, 13, 32, 160})"

text \<open>\<^verbatim>\<open>s.includes(sub)\<close>: \<^verbatim>\<open>sub\<close> occurs in \<^verbatim>\<open>s\<close> as a contiguous run.\<close>

fun jsIncludes :: "string \<Rightarrow> string \<Rightarrow> bool" where
  "jsIncludes [] sub = (sub = [])"
| "jsIncludes (c # cs) sub = (prefix sub (c # cs) \<or> jsIncludes cs sub)"

text \<open>The truthiness of a text: \<^verbatim>\<open>!text\<close> holds for \<^verbatim>\<open>undefined\<close> and for the empty string.\<close>

definition falsyText :: "jstext \<Rightarrow> bool" where
  "falsyText t = (case t of None \<Rightarrow> True | Some s \<Rightarrow> s = [])"

text \<open>String interpolation \<^verbatim>\<open>`${x}`\<close>: \<^verbatim>\<open>undefined\<close> is written out as the word
  \<^verbatim>\<open>undefined\<close>.\<close>

definition interpolate :: "jstext \<Rightarrow> string" where
  "interpolate t = (case t of None \<Rightarrow> ''undefined'' | Some s \<Rightarrow> s)"

section \<open>Tokenizer\<close>

definition stopWords :: "string list" where
  "stopWords =
    [''a'', ''an'', ''and'', ''are'', ''as'', ''at'', ''be'', ''by'', ''for'', ''from'',
     ''has'', ''he'', ''in'', ''is'', ''it'', ''its'', ''of'', ''on'', ''that'', ''the'',
     ''to'', ''was'', ''will'', ''with'', ''this'', ''but'', ''they'', ''have'', ''had'',
     ''what'', ''when'', ''where'', ''who'', ''which'', ''why'', ''how'']"

text \<open>\<^verbatim>\<open>.replace(/[^\w\s]/g, ' ')\<close>\<close>

definition replaceNonWord :: "string \<Rightarrow> string" where
  "replaceNonWord s = map (\<lambda>c. if isWordChar c \<or> isSpace c then c else CHR '' '') s"

text \<open>\<^verbatim>\<open>.split(/\s+/)\<close>: the pieces between maximal runs of whitespace; a string that
  starts or ends with whitespace gives an empty first or last piece.\<close>

function splitWs :: "string \<Rightarrow> string list" where
  "splitWs s =
     (let piece = takeWhile (\<lambda>c. \<not> isSpace c) s;
          rest = dropWhile (\<lambda>c. \<not> isSpace c) s
      in if rest = [] then [piece]
         else piece # splitWs (dropWhile isSpace rest))"
  by pat_completeness auto
termination
proof (relation "measure length")
  fix s piece rest
  assume rest: "rest = dropWhile (\<lambda>c. \<not> isSpace c) s" and ne: "rest \<noteq> []"
  from rest ne have "isSpace (hd rest)"
    using hd_dropWhile [of "\<lambda>c. \<not> isSpace c" s] by auto
  with ne have "length (dropWhile isSpace rest) < length rest"
    by (cases rest) (auto simp: le_imp_less_Suc length_dropWhile_le)
  moreover have "length rest \<le> length s"
    unfolding rest by (rule length_dropWhile_le)
  ultimately show "(dropWhile isSpace rest, s) \<in> measure length"
    by simp
qed simp

declare splitWs.simps [simp del]

definition keepWord :: "string \<Rightarrow> bool" where
  "keepWord word = (length word > 2 \<and> word \<notin> set stopWords)"

definition extractWords :: "jstext \<Rightarrow> string fset" where
  "extractWords text =
     (if falsyText text then {||}
      else fset_of_list
             (filter keepWord (splitWs (replaceNonWord (toLowerCase (the text))))))"

section \<open>Similarity\<close>

text \<open>A \<^verbatim>\<open>Set\<close> of words is a finite set. The score is the quotient of two set sizes; it
  is kept as the exact rational number (the source computes its nearest double, which
  orders and compares in the same way for sets of any size a board can hold).\<close>

definition jaccardSimilarity :: "'a fset \<Rightarrow> 'a fset \<Rightarrow> rat" where
  "jaccardSimilarity set1 set2 =
     (let intersection = ffilter (\<lambda>x. x |\<in>| set2) set1;
          union = set1 |\<union>| set2
      in if fcard union = 0 then 0
         else of_nat (fcard intersection) / of_nat (fcard union))"

section \<open>Dates\<close>

text \<open>
  A \<^verbatim>\<open>Date\<close> object holds a time value: milliseconds since 1 January 1970 UTC, or
  \<^verbatim>\<open>NaN\<close> for an invalid date. Local time is taken in a zone with a constant offset
  \<open>tza\<close> (in milliseconds) from UTC. The day and calendar functions are those of the
  ECMAScript specification of \<^verbatim>\<open>Date\<close>.
\<close>

datatype jsdate = InvalidDate | Date int

definition msPerDay :: int where
  "msPerDay = 86400000"

definition Day :: "int \<Rightarrow> int" where
  "Day t = t div msPerDay"

definition TimeWithinDay :: "int \<Rightarrow> int" where
  "TimeWithinDay t = t mod msPerDay"

definition WeekDay :: "int \<Rightarrow> int" where
  "WeekDay t = (Day t + 4) mod 7"

definition DayFromYear :: "int \<Rightarrow> int" where
  "DayFromYear y =
     365 * (y - 1970) + (y - 1969) div 4 - (y - 1901) div 100 + (y - 1601) div 400"

definition InLeapYear :: "int \<Rightarrow> bool" where
  "InLeapYear y = ((y mod 4 = 0 \<and> y mod 100 \<noteq> 0) \<or> y mod 400 = 0)"

text \<open>The year of a day number: the largest \<open>y\<close> with \<open>DayFromYear y \<le> d\<close>, found from
  the mean length of a year and one step of adjustment.\<close>

definition YearFromDay :: "int \<Rightarrow> int" where
  "YearFromDay d =
     (let y = 1970 + (400 * d) div 146097
      in if d < DayFromYear y then y - 1
         else if DayFromYear (y + 1) \<le> d then y + 1
         else y)"

definition YearFromTime :: "int \<Rightarrow> int" where
  "YearFromTime t = YearFromDay (Day t)"

definition DayWithinYear :: "int \<Rightarrow> int" where
  "DayWithinYear t = Day t - DayFromYear (YearFromTime t)"

text \<open>The number of days of the year before month \<open>m\<close> (0 is January).\<close>

definition daysBeforeMonth :: "bool \<Rightarrow> int \<Rightarrow> int" where
  "daysBeforeMonth leap m =
     (let l = (if leap then 1 else 0)
      in if m \<le> 0 then 0
         else if m = 1 then 31
         else if m = 2 then 59 + l
         else if m = 3 then 90 + l
         else if m = 4 then 120 + l
         else if m = 5 then 151 + l
         else if m = 6 then 181 + l
         else if m = 7 then 212 + l
         else if m = 8 then 243 + l
         else if m = 9 then 273 + l
         else if m = 10 then 304 + l
         else 334 + l)"

definition MonthFromTime :: "int \<Rightarrow> int" where
  "MonthFromTime t =
     (let leap = InLeapYear (YearFromTime t); d = DayWithinYear t
      in if d < daysBeforeMonth leap 1 then 0
         else if d < daysBeforeMonth leap 2 then 1
         else if d < daysBeforeMonth leap 3 then 2
         else if d < daysBeforeMonth leap 4 then 3
         else if d < daysBeforeMonth leap 5 then 4
         else if d < daysBeforeMonth leap 6 then 5
         else if d < daysBeforeMonth leap 7 then 6
         else if d < daysBeforeMonth leap 8 then 7
         else if d < daysBeforeMonth leap 9 then 8
         else if d < daysBeforeMonth leap 10 then 9
         else if d < daysBeforeMonth leap 11 then 10
         else 11)"

definition DateFromTime :: "int \<Rightarrow> int" where
  "DateFromTime t =
     DayWithinYear t - daysBeforeMonth (InLeapYear (YearFromTime t)) (MonthFromTime t) + 1"

definition MakeTime :: "int \<Rightarrow> int \<Rightarrow> int \<Rightarrow> int \<Rightarrow> int" where
  "MakeTime h m s ms = h * 3600000 + m * 60000 + s * 1000 + ms"

definition MakeDay :: "int \<Rightarrow> int \<Rightarrow> int \<Rightarrow> int" where
  "MakeDay year month date =
     (let ym = year + month div 12; mn = month mod 12
      in DayFromYear ym + daysBeforeMonth (InLeapYear ym) mn + date - 1)"

definition MakeDate :: "int \<Rightarrow> int \<Rightarrow> int" where
  "MakeDate day time = day * msPerDay + time"

definition TimeClip :: "int \<Rightarrow> jsdate" where
  "TimeClip t = (if \<bar>t\<bar> > 8640000000000000 then InvalidDate else Date t)"

definition LocalTime :: "int \<Rightarrow> int \<Rightarrow> int" where
  "LocalTime tza t = t + tza"

definition UTC :: "int \<Rightarrow> int \<Rightarrow> int" where
  "UTC tza t = t - tza"

text \<open>The getters are read only from a valid date (a copy of the clock reading).\<close>

definition getDay :: "int \<Rightarrow> int \<Rightarrow> int" where
  "getDay tza t = WeekDay (LocalTime tza t)"

definition getDate :: "int \<Rightarrow> int \<Rightarrow> int" where
  "getDate tza t = DateFromTime (LocalTime tza t)"

definition getMonth :: "int \<Rightarrow> int \<Rightarrow> int" where
  "getMonth tza t = MonthFromTime (LocalTime tza t)"

definition setHours :: "int \<Rightarrow> jsdate \<Rightarrow> int \<Rightarrow> int \<Rightarrow> int \<Rightarrow> int \<Rightarrow> jsdate" where
  "setHours tza d h m s ms =
     (case d of
        InvalidDate \<Rightarrow> InvalidDate
      | Date t \<Rightarrow> TimeClip (UTC tza (MakeDate (Day (LocalTime tza t)) (MakeTime h m s ms))))"

definition setDate :: "int \<Rightarrow> jsdate \<Rightarrow> int \<Rightarrow> jsdate" where
  "setDate tza d dt =
     (case d of
        InvalidDate \<Rightarrow> InvalidDate
      | Date t \<Rightarrow>
          (let l = LocalTime tza t
           in TimeClip (UTC tza (MakeDate (MakeDay (YearFromTime l) (MonthFromTime l) dt)
                                          (TimeWithinDay l)))))"

definition setMonth :: "int \<Rightarrow> jsdate \<Rightarrow> int \<Rightarrow> jsdate" where
  "setMonth tza d m =
     (case d of
        InvalidDate \<Rightarrow> InvalidDate
      | Date t \<Rightarrow>
          (let l = LocalTime tza t
           in TimeClip (UTC tza (MakeDate (MakeDay (YearFromTime l) m (DateFromTime l))
                                          (TimeWithinDay l)))))"

section \<open>Date-phrase parser\<close>

text \<open>\<^verbatim>\<open>lowerText.match(/in (\d+) days?/)\<close> and \<^verbatim>\<open>/in (\d+) weeks?/\<close>: the leftmost
  place where \<^verbatim>\<open>in\<close>, a space, a run of digits, a space and the unit follow each other;
  the result is the captured run of digits. The unit is \<^verbatim>\<open>" day"\<close> or \<^verbatim>\<open>" week"\<close>.\<close>

definition matchInAt :: "string \<Rightarrow> string \<Rightarrow> string option" where
  "matchInAt unit s =
     (if prefix ''in '' s
      then (let r = drop 3 s; ds = takeWhile isDigit r
            in if ds \<noteq> [] \<and> prefix unit (dropWhile isDigit r) then Some ds else None)
      else None)"

fun matchIn :: "string \<Rightarrow> string \<Rightarrow> string option" where
  "matchIn unit [] = None"
| "matchIn unit (c # cs) =
     (case matchInAt unit (c # cs) of
        Some ds \<Rightarrow> Some ds
      | None \<Rightarrow> matchIn unit cs)"

definition parseInt :: "string \<Rightarrow> int" where
  "parseInt ds = foldl (\<lambda>n c. 10 * n + (int (code c) - 48)) 0 ds"

text \<open>\<open>now\<close> is the reading of the clock taken by \<^verbatim>\<open>new Date()\<close>.\<close>

definition parseDateKeywords :: "int \<Rightarrow> int \<Rightarrow> jstext \<Rightarrow> jsdate option" where
  "parseDateKeywords tza now text =
     (if falsyText text then None
      else
        (let lowerText = toLowerCase (the text)
         in if jsIncludes lowerText ''today''
            then Some (setHours tza (Date now) 23 59 59 999)
            else if jsIncludes lowerText ''tomorrow''
            then Some (setHours tza (setDate tza (Date now) (getDate tza now + 1)) 23 59 59 999)
            else if jsIncludes lowerText ''next week''
            then Some (setHours tza (setDate tza (Date now) (getDate tza now + 7)) 23 59 59 999)
            else if jsIncludes lowerText ''this week'' \<or> jsIncludes lowerText ''end of week''
                    \<or> jsIncludes lowerText ''eow''
            then (let daysUntilFriday = (5 - getDay tza now + 7) mod 7
                  in Some (setHours tza
                             (setDate tza (Date now)
                                (getDate tza now
                                 + (if daysUntilFriday = 0 then 7 else daysUntilFriday)))
                             23 59 59 999))
            else if jsIncludes lowerText ''next month''
            then Some (setHours tza (setMonth tza (Date now) (getMonth tza now + 1)) 23 59 59 999)
            else (case matchIn '' day'' lowerText of
                    Some ds \<Rightarrow>
                      Some (setHours tza (setDate tza (Date now) (getDate tza now + parseInt ds))
                              23 59 59 999)
                  | None \<Rightarrow>
                     (case matchIn '' week'' lowerText of
                        Some ds \<Rightarrow>
                          Some (setHours tza
                                  (setDate tza (Date now) (getDate tza now + parseInt ds * 7))
                                  23 59 59 999)
                      | None \<Rightarrow> None))))"

section \<open>Cards and lists\<close>

text \<open>
  The views of the stored documents that the analysis reads. Identifiers are the strings
  that \<^verbatim>\<open>toString()\<close> gives; the field of the source is named in each comment. The title
  and the description of a card may be \<^verbatim>\<open>undefined\<close>; a list has a title, as its schema
  requires.
\<close>

record card =
  c_id :: string  \<comment> \<open>\<^verbatim>\<open>_id\<close>\<close>
  c_title :: jstext  \<comment> \<open>\<^verbatim>\<open>title\<close>\<close>
  c_description :: jstext  \<comment> \<open>\<^verbatim>\<open>description\<close>\<close>
  c_list :: string  \<comment> \<open>\<^verbatim>\<open>list\<close>\<close>
  c_dueDate :: "jsdate option"  \<comment> \<open>\<^verbatim>\<open>dueDate\<close>\<close>

record boardList =
  l_id :: string  \<comment> \<open>\<^verbatim>\<open>_id\<close>\<close>
  l_title :: string  \<comment> \<open>\<^verbatim>\<open>title\<close>\<close>

text \<open>The combined text \<^verbatim>\<open>`${card.title} ${card.description}`\<close>.\<close>

definition cardText :: "card \<Rightarrow> string" where
  "cardText c = interpolate (c_title c) @ '' '' @ interpolate (c_description c)"

section \<open>List-movement matcher\<close>

record listPattern =
  p_keywords :: "string list"  \<comment> \<open>\<^verbatim>\<open>keywords\<close>\<close>
  p_listTitles :: "string list"  \<comment> \<open>\<^verbatim>\<open>listTitles\<close>\<close>
  p_reason :: string  \<comment> \<open>\<^verbatim>\<open>reason\<close>\<close>

record listSuggestion =
  listId :: string
  listTitle :: string
  reason :: string

definition listPatterns :: "listPattern list" where
  "listPatterns =
    [\<lparr>p_keywords = [''started'', ''working on'', ''in progress'', ''doing'', ''currently''],
      p_listTitles = [''in progress'', ''doing'', ''work in progress'', ''wip''],
      p_reason = ''Keywords suggest work has started''\<rparr>,
     \<lparr>p_keywords = [''done'', ''completed'', ''finished'', ''complete''],
      p_listTitles = [''done'', ''completed'', ''finished''],
      p_reason = ''Keywords suggest task is completed''\<rparr>,
     \<lparr>p_keywords = [''testing'', ''test'', ''review'', ''qa''],
      p_listTitles = [''testing'', ''review'', ''qa'', ''quality assurance''],
      p_reason = ''Keywords suggest task needs testing/review''\<rparr>,
     \<lparr>p_keywords = [''blocked'', ''waiting'', ''stuck'', ''pending''],
      p_listTitles = [''blocked'', ''waiting'', ''on hold''],
      p_reason = ''Keywords suggest task is blocked''\<rparr>]"

definition hasKeyword :: "string \<Rightarrow> listPattern \<Rightarrow> bool" where
  "hasKeyword text pattern = list_ex (\<lambda>keyword. jsIncludes text keyword) (p_keywords pattern)"

definition matchingList :: "boardList list \<Rightarrow> listPattern \<Rightarrow> boardList option" where
  "matchingList allLists pattern =
     find (\<lambda>l. list_ex (\<lambda>t. jsIncludes (toLowerCase (l_title l)) t) (p_listTitles pattern))
       allLists"

text \<open>The loop \<^verbatim>\<open>for (const pattern of listPatterns)\<close>, over the patterns still to check.\<close>

fun checkPatterns :: "string \<Rightarrow> card \<Rightarrow> boardList list \<Rightarrow> listPattern list
    \<Rightarrow> listSuggestion option" where
  "checkPatterns text c allLists [] = None"
| "checkPatterns text c allLists (pattern # rest) =
     (if hasKeyword text pattern
      then (case matchingList allLists pattern of
              Some m \<Rightarrow>
                if l_id m \<noteq> c_list c
                then Some \<lparr>listId = l_id m, listTitle = l_title m, reason = p_reason pattern\<rparr>
                else checkPatterns text c allLists rest
            | None \<Rightarrow> checkPatterns text c allLists rest)
      else checkPatterns text c allLists rest)"

definition suggestListMovement :: "card \<Rightarrow> boardList list \<Rightarrow> listSuggestion option" where
  "suggestListMovement c allLists =
     (if allLists = [] then None
      else checkPatterns (toLowerCase (cardText c)) c allLists listPatterns)"

section \<open>Related-card finder\<close>

record cardSummary =
  s_id :: string  \<comment> \<open>\<^verbatim>\<open>_id\<close>\<close>
  s_title :: jstext  \<comment> \<open>\<^verbatim>\<open>title\<close>\<close>
  s_list :: string  \<comment> \<open>\<^verbatim>\<open>list\<close>\<close>
  s_dueDate :: "jsdate option"  \<comment> \<open>\<^verbatim>\<open>dueDate\<close>\<close>

record relatedCard =
  r_card :: cardSummary  \<comment> \<open>\<^verbatim>\<open>card\<close>\<close>
  similarity :: rat

text \<open>The body of the \<^verbatim>\<open>map\<close> callback: the summary of the other card and its score
  against the words of the current card.\<close>

definition scoreCard :: "string fset \<Rightarrow> card \<Rightarrow> relatedCard" where
  "scoreCard currentWords otherCard =
     (let otherWords = extractWords (Some (cardText otherCard))
      in \<lparr>r_card = \<lparr>s_id = c_id otherCard, s_title = c_title otherCard,
                     s_list = c_list otherCard, s_dueDate = c_dueDate otherCard\<rparr>,
          similarity = jaccardSimilarity currentWords otherWords\<rparr>)"

text \<open>\<^verbatim>\<open>.sort((a, b) => b.similarity - a.similarity)\<close>: a stable sort, highest score
  first.\<close>

definition sortBySimilarity :: "relatedCard list \<Rightarrow> relatedCard list" where
  "sortBySimilarity items = sort_key (\<lambda>item. - similarity item) items"

text \<open>The limit is a count of cards, a natural number; \<^verbatim>\<open>slice(0, limit)\<close> then takes the
  first \<open>limit\<close> items. The defaults of the source, limit 5 and threshold 0.2, are written
  out where \<^verbatim>\<open>analyzeCard\<close> calls the function.\<close>

definition findRelatedCards :: "card \<Rightarrow> card list \<Rightarrow> nat \<Rightarrow> rat \<Rightarrow> relatedCard list" where
  "findRelatedCards c allCards limit threshold =
     (if allCards = [] then []
      else
        (let currentWords = extractWords (Some (cardText c))
         in if fcard currentWords = 0 then []
            else take limit
                   (sortBySimilarity
                      (filter (\<lambda>item. similarity item \<ge> threshold)
                         (map (scoreCard currentWords)
                            (filter (\<lambda>c'. c_id c' \<noteq> c_id c) allCards))))))"

section \<open>Recommendation orchestrator\<close>

record dateSuggestion =
  d_date :: jsdate  \<comment> \<open>\<^verbatim>\<open>date\<close>\<close>
  d_source :: string  \<comment> \<open>\<^verbatim>\<open>source\<close>\<close>
  d_confidence :: string  \<comment> \<open>\<^verbatim>\<open>confidence\<close>\<close>
  d_reason :: string  \<comment> \<open>\<^verbatim>\<open>reason\<close>\<close>

text \<open>The icon of a tip is one character outside the strings modelled here; it is kept as
  its Unicode code point.\<close>

record smartTip =
  icon :: nat
  tip :: string

record analysis =
  suggestedDueDates :: "dateSuggestion list"
  suggestedListMovement :: "listSuggestion option"
  relatedCards :: "relatedCard list"
  smartTips :: "smartTip list option"

definition extractDateReason :: "jstext \<Rightarrow> string" where
  \<open>extractDateReason text =
     (let lowerText = (case text of None \<Rightarrow> [] | Some s \<Rightarrow> toLowerCase s)
      in if jsIncludes lowerText ''tomorrow'' then ''Mentioned "tomorrow"''
         else if jsIncludes lowerText ''today'' then ''Mentioned "today"''
         else if jsIncludes lowerText ''next week'' then ''Mentioned "next week"''
         else if jsIncludes lowerText ''this week'' \<or> jsIncludes lowerText ''end of week''
         then ''Mentioned "this week"''
         else if jsIncludes lowerText ''next month'' then ''Mentioned "next month"''
         else (case matchIn '' day'' lowerText of
                 Some ds \<Rightarrow> ''Mentioned "in '' @ ds @ '' days"''
               | None \<Rightarrow>
                  (case matchIn '' week'' lowerText of
                     Some ds \<Rightarrow> ''Mentioned "in '' @ ds @ '' weeks"''
                   | None \<Rightarrow> ''Based on card content'')))\<close>

text \<open>\<^verbatim>\<open>a.getTime() !== b.getTime()\<close>: the time value of an invalid date is \<^verbatim>\<open>NaN\<close>,
  which differs from every number and from itself.\<close>

definition timeDiffers :: "jsdate \<Rightarrow> jsdate \<Rightarrow> bool" where
  "timeDiffers a b =
     (case a of
        InvalidDate \<Rightarrow> True
      | Date x \<Rightarrow> (case b of InvalidDate \<Rightarrow> True | Date y \<Rightarrow> x \<noteq> y))"

definition genericTips :: "smartTip list" where
  \<open>genericTips =
    [\<lparr>icon = 0x1F4A1,
      tip = ''Add time keywords like "tomorrow", "next week", or "in 3 days" to get due date suggestions''\<rparr>,
     \<lparr>icon = 0x1F3AF,
      tip = ''Use keywords like "started working", "completed", or "testing" to get list movement suggestions''\<rparr>,
     \<lparr>icon = 0x1F517,
      tip = ''Create similar cards with related topics to see related card recommendations''\<rparr>]\<close>

text \<open>The two calls of the date parser read the clock one after the other: \<open>now1\<close> for the
  title, \<open>now2\<close> for the description.\<close>

definition titleSuggestions :: "card \<Rightarrow> jsdate option \<Rightarrow> dateSuggestion list" where
  "titleSuggestions c titleDate =
     (case titleDate of
        Some d \<Rightarrow> [\<lparr>d_date = d, d_source = ''title'', d_confidence = ''high'',
                     d_reason = extractDateReason (c_title c)\<rparr>]
      | None \<Rightarrow> [])"

definition descriptionSuggestions :: "card \<Rightarrow> jsdate option \<Rightarrow> jsdate option
    \<Rightarrow> dateSuggestion list" where
  "descriptionSuggestions c titleDate descriptionDate =
     (case descriptionDate of
        Some d \<Rightarrow>
          if titleDate = None \<or> timeDiffers d (the titleDate)
          then [\<lparr>d_date = d, d_source = ''description'', d_confidence = ''medium'',
                  d_reason = extractDateReason (c_description c)\<rparr>]
          else []
      | None \<Rightarrow> [])"

definition analyzeCard :: "int \<Rightarrow> int \<Rightarrow> int \<Rightarrow> card \<Rightarrow> card list \<Rightarrow> boardList list
    \<Rightarrow> analysis" where
  "analyzeCard tza now1 now2 c boardCards boardLists =
     (let titleDate = parseDateKeywords tza now1 (c_title c);
          descriptionDate = parseDateKeywords tza now2 (c_description c);
          dates = titleSuggestions c titleDate
                  @ descriptionSuggestions c titleDate descriptionDate;
          listSuggestion = suggestListMovement c boardLists;
          related = findRelatedCards c boardCards 5 0.2
      in \<lparr>suggestedDueDates = dates,
          suggestedListMovement = listSuggestion,
          relatedCards = related,
          smartTips = (if dates = [] \<and> listSuggestion = None \<and> related = []
                       then Some genericTips else None)\<rparr>)"

section \<open>AI enrichment adapter\<close>

text \<open>
  The adapter asks an external service for a reply and reads a JSON value out of it. The
  service and \<^verbatim>\<open>JSON.parse\<close> are outside the code: the outcome of the call and the parser
  are given to the model. A parser returns \<^term>\<open>None\<close> where \<^verbatim>\<open>JSON.parse\<close> throws.
\<close>

datatype json =
    JNull
  | JBool bool
  | JNum rat
  | JStr string
  | JArr "json list"
  | JObj "(string \<times> json) list"

text \<open>The call either throws or gives a response, whose \<^verbatim>\<open>text\<close> may be \<^verbatim>\<open>undefined\<close>.\<close>

datatype serviceOutcome = CallFails | Reply "string option"

text \<open>\<^verbatim>\<open>text.match(/\{[\s\S]*\}/)\<close>: the match starts at the first opening brace and, the
  star being greedy, ends at the last closing brace after it.\<close>

definition jsonSpan :: "string \<Rightarrow> string option" where
  "jsonSpan text =
     (case dropWhile (\<lambda>c. c \<noteq> CHR ''{'') text of
        [] \<Rightarrow> None
      | b # rest \<Rightarrow>
          (case dropWhile (\<lambda>c. c \<noteq> CHR ''}'') (rev rest) of
             [] \<Rightarrow> None
           | e # body \<Rightarrow> Some (b # rev (e # body))))"

text \<open>Every exception inside \<^verbatim>\<open>try\<close> is caught and turned into \<^verbatim>\<open>null\<close>: the failed call,
  \<^verbatim>\<open>match\<close> on an undefined text, the parser's error.\<close>

definition getAISuggestions :: "string option \<Rightarrow> serviceOutcome \<Rightarrow> (string \<Rightarrow> json option)
    \<Rightarrow> json option" where
  "getAISuggestions apiKey outcome parse =
     (if falsyText apiKey \<or> apiKey = Some ''undefined'' then None
      else (case outcome of
              CallFails \<Rightarrow> None
            | Reply None \<Rightarrow> None
            | Reply (Some text) \<Rightarrow>
                (case jsonSpan text of
                   None \<Rightarrow> None
                 | Some block \<Rightarrow> parse block)))"

text \<open>The truthiness of a parsed value, and the reading of a property (\<^term>\<open>None\<close> is
  \<^verbatim>\<open>undefined\<close>; of an object with a repeated key the last entry counts).\<close>

definition falsyJson :: "json \<Rightarrow> bool" where
  "falsyJson j = (j = JNull \<or> j = JBool False \<or> j = JNum 0 \<or> j = JStr [])"

definition getField :: "json \<Rightarrow> string \<Rightarrow> json option" where
  "getField j name = (case j of JObj kvs \<Rightarrow> map_of (rev kvs) name | _ \<Rightarrow> None)"

record aiInsights =
  aiPowered :: bool
  dueDateSuggestion :: "json option"
  listMovement :: "json option"
  insights :: "json option"

definition getCardInsights :: "string option \<Rightarrow> serviceOutcome \<Rightarrow> (string \<Rightarrow> json option)
    \<Rightarrow> aiInsights option" where
  "getCardInsights apiKey outcome parse =
     (case getAISuggestions apiKey outcome parse of
        None \<Rightarrow> None
      | Some aiSuggestions \<Rightarrow>
          if falsyJson aiSuggestions then None
          else Some \<lparr>aiPowered = True,
                     dueDateSuggestion = getField aiSuggestions ''dueDateSuggestion'',
                     listMovement = getField aiSuggestions ''listMovement'',
                     insights = getField aiSuggestions ''insights''\<rparr>)"

text \<open>The first balanced block of a text, as the description has it: from the first
  opening brace whose closing brace exists, up to that closing brace.\<close>

fun balancedRest :: "nat \<Rightarrow> string \<Rightarrow> string option" where
  "balancedRest depth [] = None"
| "balancedRest depth (c # cs) =
     (if c = CHR ''}''
      then (if depth = 0 then Some [c] else map_option ((#) c) (balancedRest (depth - 1) cs))
      else if c = CHR ''{'' then map_option ((#) c) (balancedRest (Suc depth) cs)
      else map_option ((#) c) (balancedRest depth cs))"

fun firstBalancedBlock :: "string \<Rightarrow> string option" where
  "firstBalancedBlock [] = None"
| "firstBalancedBlock (c # cs) =
     (if c = CHR ''{''
      then (case balancedRest 0 cs of
              Some b \<Rightarrow> Some (c # b)
            | None \<Rightarrow> firstBalancedBlock cs)
      else firstBalancedBlock cs)"

section \<open>The days the parser speaks of\<close>

text \<open>A reading of the clock is a valid time value.\<close>

definition validTime :: "int \<Rightarrow> bool" where
  "validTime now = (\<bar>now\<bar> \<le> 8640000000000000)"

text \<open>The last millisecond (23:59:59.999 local time) of the local day \<open>n\<close> days after the
  day of \<open>now\<close>, as a date: invalid when it lies outside the range of time values.\<close>

definition endOfDayAfter :: "int \<Rightarrow> int \<Rightarrow> int \<Rightarrow> jsdate" where
  "endOfDayAfter tza now n =
     TimeClip (UTC tza (MakeDate (Day (LocalTime tza now) + n) (MakeTime 23 59 59 999)))"

text \<open>The number of days from the local day of \<open>now\<close> to the next Friday after it.\<close>

definition daysToComingFriday :: "int \<Rightarrow> int \<Rightarrow> int" where
  "daysToComingFriday tza now =
     (if WeekDay (LocalTime tza now) = 5 then 7
      else (5 - WeekDay (LocalTime tza now)) mod 7)"

text \<open>The last millisecond of the local day with the day-of-month of \<open>now\<close> in the month
  after that of \<open>now\<close>; a day-of-month that the next month does not have carries over into
  the month after it.\<close>

definition endOfDayNextMonth :: "int \<Rightarrow> int \<Rightarrow> jsdate" where
  "endOfDayNextMonth tza now =
     (let l = LocalTime tza now
      in TimeClip (UTC tza (MakeDate
           (MakeDay (YearFromTime l) (MonthFromTime l + 1) (DateFromTime l))
           (MakeTime 23 59 59 999))))"

section \<open>The pattern that decides a list movement\<close>

text \<open>A pattern fires for a card when one of its keywords occurs in the card's text and the
  first list of the board whose title holds one of its fragments is not the card's own
  list.\<close>

definition patternFires :: "string \<Rightarrow> card \<Rightarrow> boardList list \<Rightarrow> listPattern \<Rightarrow> bool" where
  "patternFires text c allLists pattern =
     (hasKeyword text pattern \<and>
      (case matchingList allLists pattern of
         None \<Rightarrow> False
       | Some m \<Rightarrow> l_id m \<noteq> c_list c))"

section \<open>The ranking of related cards as described\<close>

text \<open>The steps of the description, one after the other: leave out the target card, score
  every other card against the words of the target, keep the scores that reach the
  threshold, sort by descending score (stably), cut at the limit.\<close>

definition scoredCandidates :: "card \<Rightarrow> card list \<Rightarrow> relatedCard list" where
  "scoredCandidates c allCards =
     map (scoreCard (extractWords (Some (cardText c))))
       (filter (\<lambda>c'. c_id c' \<noteq> c_id c) allCards)"

definition keptCandidates :: "card \<Rightarrow> card list \<Rightarrow> rat \<Rightarrow> relatedCard list" where
  "keptCandidates c allCards threshold =
     filter (\<lambda>item. threshold \<le> similarity item) (scoredCandidates c allCards)"

definition rankedCandidates :: "card \<Rightarrow> card list \<Rightarrow> rat \<Rightarrow> relatedCard list" where
  "rankedCandidates c allCards threshold =
     sort_key (\<lambda>item. - similarity item) (keptCandidates c allCards threshold)"

definition describedRelatedCards :: "card \<Rightarrow> card list \<Rightarrow> nat \<Rightarrow> rat \<Rightarrow> relatedCard list" where
  "describedRelatedCards c allCards limit threshold =
     take limit (rankedCandidates c allCards threshold)"

section \<open>Example boards\<close>

text \<open>Small concrete inputs on which the operations are evaluated.\<close>

definition plainCard :: card where
  "plainCard = \<lparr>c_id = ''c1'', c_title = Some ''Buy milk'', c_description = Some [],
                 c_list = ''l1'', c_dueDate = None\<rparr>"

definition otherCard :: card where
  "otherCard = \<lparr>c_id = ''c2'', c_title = Some ''Paint fence'', c_description = Some ''green'',
                 c_list = ''l1'', c_dueDate = None\<rparr>"

definition someLists :: "boardList list" where
  "someLists = [\<lparr>l_id = ''l1'', l_title = ''Backlog''\<rparr>, \<lparr>l_id = ''l2'', l_title = ''Done''\<rparr>]"

definition tomorrowCard :: card where
  "tomorrowCard = \<lparr>c_id = ''c3'', c_title = Some ''Ship it tomorrow'',
                    c_description = Some ''Tomorrow morning'', c_list = ''l1'',
                    c_dueDate = None\<rparr>"

definition farCard :: card where
  "farCard = \<lparr>c_id = ''c4'', c_title = Some ''in 99999999999 days'',
               c_description = Some ''in 99999999999 days'', c_list = ''l1'',
               c_dueDate = None\<rparr>"

definition doneCard :: card where
  "doneCard = \<lparr>c_id = ''c5'', c_title = Some ''Done, needs Testing'', c_description = Some [],
                c_list = ''l3'', c_dueDate = None\<rparr>"

definition threeLists :: "boardList list" where
  "threeLists = [\<lparr>l_id = ''l1'', l_title = ''Backlog''\<rparr>, \<lparr>l_id = ''l2'', l_title = ''Testing''\<rparr>,
                 \<lparr>l_id = ''l3'', l_title = ''Done''\<rparr>]"

definition todoCard :: card where
  "todoCard = \<lparr>c_id = ''c6'', c_title = Some ''To do'', c_description = Some [],
                c_list = ''l1'', c_dueDate = None\<rparr>"

definition serviceCard :: card where
  "serviceCard = \<lparr>c_id = ''a'', c_title = Some ''Deploy payment service'',
                   c_description = Some [], c_list = ''l1'', c_dueDate = None\<rparr>"

definition gatewayCard :: card where
  "gatewayCard = \<lparr>c_id = ''b'', c_title = Some ''Deploy payment gateway'',
                   c_description = Some [], c_list = ''l1'', c_dueDate = None\<rparr>"

definition auditCard :: card where
  "auditCard = \<lparr>c_id = ''c'', c_title = Some ''Payment gateway audit'',
                 c_description = Some [], c_list = ''l2'', c_dueDate = None\<rparr>"

text \<open>A parser for the one text \<^verbatim>\<open>{}\<close>, the empty object; it rejects every other text.\<close>

definition emptyObjectParser :: "string \<Rightarrow> json option" where
  "emptyObjectParser s = (if s = ''{}'' then Some (JObj []) else None)"

text \<open>Two cards read from documents that were stored without a description.\<close>

definition fixCard :: card where
  "fixCard = \<lparr>c_id = ''c7'', c_title = Some ''Fix'', c_description = None,
               c_list = ''l1'', c_dueDate = None\<rparr>"

definition buyCard :: card where
  "buyCard = \<lparr>c_id = ''c8'', c_title = Some ''Buy'', c_description = None,
               c_list = ''l1'', c_dueDate = None\<rparr>"

section \<open>Properties of the similarity engine\<close>

lemma jaccard_inter: "ffilter (\<lambda>x. x |\<in>| B) A = A |\<inter>| B"
  by auto

lemma jaccard_formula:
  "jaccardSimilarity A B =
     (if A |\<union>| B = {||} then 0 else of_nat (fcard (A |\<inter>| B)) / of_nat (fcard (A |\<union>| B)))"
  by (simp add: jaccardSimilarity_def Let_def jaccard_inter)

lemma jaccard_empty: "jaccardSimilarity {||} {||} = 0"
  by (simp add: jaccard_formula)

lemma jaccard_self: "S \<noteq> {||} \<Longrightarrow> jaccardSimilarity S S = 1"
  by (simp add: jaccard_formula)

lemma jaccard_sym: "jaccardSimilarity A B = jaccardSimilarity B A"
  by (simp add: jaccard_formula finter_commute funion_commute)

lemma jaccard_range: "0 \<le> jaccardSimilarity A B \<and> jaccardSimilarity A B \<le> 1"
proof (cases "A |\<union>| B = {||}")
  case True
  then show ?thesis by (simp add: jaccard_formula)
next
  case False
  then have pos: "0 < fcard (A |\<union>| B)"
    by (metis fcard_0_eq gr0I)
  have "fcard (A |\<inter>| B) \<le> fcard (A |\<union>| B)"
    by (rule fcard_mono) auto
  with pos False show ?thesis
    unfolding jaccard_formula by (simp add: divide_le_eq_1)
qed

text \<open>
  Claim C9. The similarity of two word sets is the size of their intersection divided by the
  size of their union. Two empty sets have similarity 0 (the empty union is a case of its
  own, not a division by zero); a nonempty set has similarity 1 with itself; the
  similarity is symmetric and lies between 0 and 1.
\<close>

theorem jaccardSimilarity_properties:
  "jaccardSimilarity ({||} :: 'a fset) {||} = 0
   \<and> (S \<noteq> {||} \<longrightarrow> jaccardSimilarity S S = 1)
   \<and> jaccardSimilarity A B = jaccardSimilarity B A
   \<and> 0 \<le> jaccardSimilarity A B \<and> jaccardSimilarity A B \<le> 1
   \<and> (A |\<union>| B \<noteq> {||} \<longrightarrow>
        jaccardSimilarity A B = of_nat (fcard (A |\<inter>| B)) / of_nat (fcard (A |\<union>| B)))"
proof (intro conjI impI)
  show "jaccardSimilarity ({||} :: 'a fset) {||} = 0" by (rule jaccard_empty)
  show "jaccardSimilarity S S = 1" if "S \<noteq> {||}" using that by (rule jaccard_self)
  show "jaccardSimilarity A B = jaccardSimilarity B A" by (rule jaccard_sym)
  show "0 \<le> jaccardSimilarity A B" using jaccard_range by blast
  show "jaccardSimilarity A B \<le> 1" using jaccard_range by blast
  show "jaccardSimilarity A B = of_nat (fcard (A |\<inter>| B)) / of_nat (fcard (A |\<union>| B))"
    if "A |\<union>| B \<noteq> {||}" using that by (simp add: jaccard_formula)
qed

theorem jaccardSimilarity_properties_witness:
  "{|''fix'', ''login''|} \<noteq> {||}
   \<and> jaccardSimilarity {|''fix'', ''login''|} {|''fix'', ''login''|} = 1
   \<and> jaccardSimilarity {|''fix'', ''login''|} {|''fix'', ''page'', ''bug''|}
       = jaccardSimilarity {|''fix'', ''page'', ''bug''|} {|''fix'', ''login''|}
   \<and> {|''fix'', ''login''|} |\<union>| {|''fix'', ''page'', ''bug''|} \<noteq> {||}
   \<and> jaccardSimilarity {|''fix'', ''login''|} {|''fix'', ''page'', ''bug''|} = 1 / 4"
proof -
  have ne: "{|''fix'', ''login''|} \<noteq> {||}" by simp
  have un: "{|''fix'', ''login''|} |\<union>| {|''fix'', ''page'', ''bug''|} \<noteq> {||}" by simp
  have c1: "fcard ({|''fix'', ''login''|} |\<inter>| {|''fix'', ''page'', ''bug''|}) = 1" by code_simp
  have c2: "fcard ({|''fix'', ''login''|} |\<union>| {|''fix'', ''page'', ''bug''|}) = 4" by code_simp
  note t = jaccardSimilarity_properties
      [of "{|''fix'', ''login''|}" "{|''fix'', ''login''|}" "{|''fix'', ''page'', ''bug''|}"]
  from t ne have a: "jaccardSimilarity {|''fix'', ''login''|} {|''fix'', ''login''|} = 1"
    by blast
  from t have b: "jaccardSimilarity {|''fix'', ''login''|} {|''fix'', ''page'', ''bug''|}
       = jaccardSimilarity {|''fix'', ''page'', ''bug''|} {|''fix'', ''login''|}"
    by blast
  from t un have c: "jaccardSimilarity {|''fix'', ''login''|} {|''fix'', ''page'', ''bug''|}
       = of_nat (fcard ({|''fix'', ''login''|} |\<inter>| {|''fix'', ''page'', ''bug''|}))
         / of_nat (fcard ({|''fix'', ''login''|} |\<union>| {|''fix'', ''page'', ''bug''|}))"
    by blast
  have d: "jaccardSimilarity {|''fix'', ''login''|} {|''fix'', ''page'', ''bug''|} = 1 / 4"
    unfolding c c1 c2 by simp
  show ?thesis using ne a b un d by blast
qed

section \<open>The calendar\<close>

lemma div_bounds: "0 < k \<Longrightarrow> k * (x div k) \<le> x \<and> x < k * (x div k) + (k::int)"
  using mult_div_mod_eq [of k x] pos_mod_sign [of k x] pos_mod_bound [of k x] by linarith

lemma DayFromYear_bounds:
  "146097 * q - 506 \<le> 400 * DayFromYear (1970 + q)
   \<and> 400 * DayFromYear (1970 + q) \<le> 146097 * q + 589"
proof -
  define a where "a = (1970 + q - 1969) div 4"
  define b where "b = (1970 + q - 1901) div 100"
  define c where "c = (1970 + q - 1601) div 400"
  have "DayFromYear (1970 + q) = 365 * (1970 + q - 1970) + a - b + c"
    unfolding DayFromYear_def a_def b_def c_def by (rule refl)
  then have f: "400 * DayFromYear (1970 + q) = 146000 * q + 400 * a - 400 * b + 400 * c"
    by simp
  have a: "4 * a \<le> 1970 + q - 1969" "1970 + q - 1969 < 4 * a + 4"
    unfolding a_def using div_bounds [of 4 "1970 + q - 1969"] by simp_all
  have b: "100 * b \<le> 1970 + q - 1901" "1970 + q - 1901 < 100 * b + 100"
    unfolding b_def using div_bounds [of 100 "1970 + q - 1901"] by simp_all
  have c: "400 * c \<le> 1970 + q - 1601" "1970 + q - 1601 < 400 * c + 400"
    unfolding c_def using div_bounds [of 400 "1970 + q - 1601"] by simp_all
  show ?thesis
    unfolding f using a b c by linarith
qed

text \<open>The year found for a day number is the year that holds the day.\<close>

lemma YearFromDay_holds_day:
  "DayFromYear (YearFromDay d) \<le> d \<and> d < DayFromYear (YearFromDay d + 1)"
proof -
  define q where "q = (400 * d) div 146097"
  have q: "146097 * q \<le> 400 * d" "400 * d < 146097 * q + 146097"
    using div_bounds [of 146097 "400 * d"] by (simp_all add: q_def)
  define f where "f = DayFromYear (1970 + q)"
  define fm where "fm = DayFromYear (1970 + (q - 1))"
  define fp where "fp = DayFromYear (1970 + (q + 1))"
  define fpp where "fpp = DayFromYear (1970 + (q + 2))"
  have bm: "400 * fm \<le> 146097 * q - 145508"
    using DayFromYear_bounds [of "q - 1"] by (simp add: fm_def algebra_simps)
  have bpp: "146097 * q + 291688 \<le> 400 * fpp"
    using DayFromYear_bounds [of "q + 2"] by (simp add: fpp_def algebra_simps)
  have y: "YearFromDay d = (if d < f then 1970 + (q - 1)
      else if fp \<le> d then 1970 + (q + 1) else 1970 + q)"
    by (simp add: YearFromDay_def Let_def q_def f_def fp_def)
  have e1: "1970 + (q - 1) + 1 = 1970 + q" and e2: "1970 + (q + 1) + 1 = 1970 + (q + 2)"
    and e3: "1970 + q + 1 = 1970 + (q + 1)"
    by simp_all
  show ?thesis
  proof (cases "d < f")
    case True
    have "fm \<le> d" using q(1) bm by linarith
    with True show ?thesis
      unfolding y by (simp only: if_True e1) (simp add: f_def fm_def)
  next
    case False
    show ?thesis
    proof (cases "fp \<le> d")
      case True
      have "d < fpp" using q(2) bpp by linarith
      with True False show ?thesis
        unfolding y by (simp only: if_True if_False e2) (simp add: fp_def fpp_def)
    next
      case F: False
      with False show ?thesis
        unfolding y by (simp only: if_False e3) (simp add: f_def fp_def)
    qed
  qed
qed

section \<open>Properties of the date arithmetic\<close>

lemma MonthFromTime_range: "0 \<le> MonthFromTime t \<and> MonthFromTime t \<le> 11"
  by (simp add: MonthFromTime_def Let_def)

lemma MakeDay_same_month:
  "MakeDay (YearFromTime l) (MonthFromTime l) (DateFromTime l + n) = Day l + n"
proof -
  have m: "MonthFromTime l div 12 = 0" "MonthFromTime l mod 12 = MonthFromTime l"
    using MonthFromTime_range [of l] by simp_all
  show ?thesis
    by (simp add: MakeDay_def Let_def m DateFromTime_def DayWithinYear_def)
qed

lemma DayFromYear_next: "DayFromYear y + 364 \<le> DayFromYear (y + 1)"
proof -
  define a where "a = (y - 1969) div 4"
  define a' where "a' = (y + 1 - 1969) div 4"
  define b where "b = (y - 1901) div 100"
  define b' where "b' = (y + 1 - 1901) div 100"
  define c where "c = (y - 1601) div 400"
  define c' where "c' = (y + 1 - 1601) div 400"
  have "a \<le> a'" unfolding a_def a'_def by (rule zdiv_mono1) simp_all
  moreover have "c \<le> c'" unfolding c_def c'_def by (rule zdiv_mono1) simp_all
  moreover have "b' \<le> b + 1"
  proof -
    have "(y + 1 - 1901) div 100 \<le> (y - 1901 + 100) div 100"
      by (rule zdiv_mono1) simp_all
    then show ?thesis unfolding b_def b'_def by simp
  qed
  moreover have "DayFromYear y = 365 * (y - 1970) + a - b + c"
    by (simp add: DayFromYear_def a_def b_def c_def)
  moreover have "DayFromYear (y + 1) = 365 * (y - 1970) + 365 + a' - b' + c'"
    by (simp add: DayFromYear_def a'_def b'_def c'_def)
  ultimately show ?thesis by simp
qed

lemma daysBeforeMonth_mono:
  "0 \<le> m \<Longrightarrow> m \<le> 10 \<Longrightarrow> daysBeforeMonth leap m \<le> daysBeforeMonth leap (m + 1)"
  by (simp add: daysBeforeMonth_def Let_def)

lemma MakeDay_next_month:
  "Day l \<le> MakeDay (YearFromTime l) (MonthFromTime l + 1) (DateFromTime l)"
proof (cases "MonthFromTime l \<le> 10")
  case True
  with MonthFromTime_range [of l]
  have m: "(MonthFromTime l + 1) div 12 = 0" "(MonthFromTime l + 1) mod 12 = MonthFromTime l + 1"
    by simp_all
  from True MonthFromTime_range [of l]
  have "daysBeforeMonth (InLeapYear (YearFromTime l)) (MonthFromTime l)
        \<le> daysBeforeMonth (InLeapYear (YearFromTime l)) (MonthFromTime l + 1)"
    by (simp add: daysBeforeMonth_mono)
  then show ?thesis
    by (simp add: MakeDay_def Let_def m DateFromTime_def DayWithinYear_def)
next
  case False
  with MonthFromTime_range [of l] have e: "MonthFromTime l = 11" by simp
  have "daysBeforeMonth (InLeapYear (YearFromTime l)) 11 \<le> 335"
    by (simp add: daysBeforeMonth_def)
  with DayFromYear_next [of "YearFromTime l"] show ?thesis
    by (simp add: MakeDay_def Let_def e DateFromTime_def DayWithinYear_def daysBeforeMonth_def)
qed

lemma Day_TimeWithinDay: "Day l * msPerDay + TimeWithinDay l = l"
  by (simp add: Day_def TimeWithinDay_def)

lemma TimeWithinDay_bounds: "0 \<le> TimeWithinDay l \<and> TimeWithinDay l \<le> 86399999"
  by (simp add: TimeWithinDay_def msPerDay_def)

lemma Day_MakeDate: "0 \<le> t \<Longrightarrow> t \<le> 86399999 \<Longrightarrow> Day (MakeDate d t) = d"
  by (simp add: Day_def MakeDate_def msPerDay_def)

text \<open>Moving a valid date to a local day not before its own and then to the end of that
  day gives the end of that day, or an invalid date when that lies out of range.\<close>

lemma setHours_after_day:
  assumes v: "validTime now" and d: "Day (LocalTime tza now) \<le> d"
  shows "setHours tza (TimeClip (UTC tza (MakeDate d (TimeWithinDay (LocalTime tza now)))))
           23 59 59 999
         = TimeClip (UTC tza (MakeDate d (MakeTime 23 59 59 999)))"
proof -
  let ?l = "LocalTime tza now"
  let ?v = "UTC tza (MakeDate d (TimeWithinDay ?l))"
  have tw: "0 \<le> TimeWithinDay ?l" "TimeWithinDay ?l \<le> 86399999"
    using TimeWithinDay_bounds [of ?l] by simp_all
  show ?thesis
  proof (cases "\<bar>?v\<bar> > 8640000000000000")
    case False
    have "Day (LocalTime tza ?v) = d"
      using Day_MakeDate [OF tw, of d] by (simp add: LocalTime_def UTC_def)
    with False show ?thesis
      by (simp add: TimeClip_def setHours_def)
  next
    case True
    have "Day ?l * msPerDay \<le> d * msPerDay"
      using d by (simp add: msPerDay_def)
    with Day_TimeWithinDay [of ?l] have "now \<le> ?v"
      by (simp add: UTC_def MakeDate_def LocalTime_def)
    with True v have "?v > 8640000000000000"
      unfolding validTime_def by linarith
    with tw have "UTC tza (MakeDate d (MakeTime 23 59 59 999)) > 8640000000000000"
      by (simp add: UTC_def MakeDate_def MakeTime_def)
    with True show ?thesis
      by (simp add: TimeClip_def setHours_def)
  qed
qed

lemma setHours_today: "setHours tza (Date now) 23 59 59 999 = endOfDayAfter tza now 0"
  by (simp add: setHours_def endOfDayAfter_def)

lemma setHours_setDate:
  assumes v: "validTime now" and n: "0 \<le> n"
  shows "setHours tza (setDate tza (Date now) (getDate tza now + n)) 23 59 59 999
         = endOfDayAfter tza now n"
  using setHours_after_day [OF v, of tza "Day (LocalTime tza now) + n"] n
  by (simp add: setDate_def getDate_def Let_def MakeDay_same_month endOfDayAfter_def)

lemma setHours_setMonth:
  assumes v: "validTime now"
  shows "setHours tza (setMonth tza (Date now) (getMonth tza now + 1)) 23 59 59 999
         = endOfDayNextMonth tza now"
  using setHours_after_day [OF v MakeDay_next_month [of "LocalTime tza now"]]
  by (simp add: setMonth_def getMonth_def Let_def endOfDayNextMonth_def)

section \<open>Properties of the date-phrase parser\<close>

lemma jsIncludes_sublist: "jsIncludes s sub = sublist sub s"
  by (induction s) (simp_all add: sublist_Cons_right)

lemma jsIncludes_toLowerCase:
  assumes "jsIncludes t k" and "toLowerCase k = k"
  shows "jsIncludes (toLowerCase t) k"
proof -
  from assms(1) have "sublist (map lowerChar k) (map lowerChar t)"
    unfolding jsIncludes_sublist by (rule map_mono_sublist)
  with assms(2) show ?thesis
    by (simp add: jsIncludes_sublist toLowerCase_def)
qed

lemma parseInt_acc_nonneg:
  "0 \<le> n \<Longrightarrow> \<forall>c\<in>set ds. isDigit c \<Longrightarrow>
   0 \<le> foldl (\<lambda>n c. 10 * n + (int (code c) - 48)) n ds"
  by (induction ds arbitrary: n) (auto simp: isDigit_def)

lemma matchInAt_digits: "matchInAt unit s = Some ds \<Longrightarrow> ds \<noteq> [] \<and> (\<forall>c\<in>set ds. isDigit c)"
  by (auto simp: matchInAt_def Let_def split: if_splits dest: set_takeWhileD)

lemma matchIn_digits: "matchIn unit s = Some ds \<Longrightarrow> ds \<noteq> [] \<and> (\<forall>c\<in>set ds. isDigit c)"
  by (induction s) (auto split: option.splits dest: matchInAt_digits)

lemma matchIn_parseInt: "matchIn unit s = Some ds \<Longrightarrow> 0 \<le> parseInt ds"
  unfolding parseInt_def using matchIn_digits [of unit s ds] parseInt_acc_nonneg [of 0 ds]
  by simp

lemma WeekDay_range: "0 \<le> WeekDay t \<and> WeekDay t \<le> 6"
  by (simp add: WeekDay_def)

lemma daysUntilFriday:
  "(if (5 - getDay tza now + 7) mod 7 = 0 then 7 else (5 - getDay tza now + 7) mod 7)
   = daysToComingFriday tza now"
proof -
  define w where "w = WeekDay (LocalTime tza now)"
  have "0 \<le> w \<and> w \<le> 6" unfolding w_def by (rule WeekDay_range)
  then have "w = 0 \<or> w = 1 \<or> w = 2 \<or> w = 3 \<or> w = 4 \<or> w = 5 \<or> w = 6" by arith
  then have "(if (5 - w + 7) mod 7 = 0 then 7 else (5 - w + 7) mod 7)
      = (if w = 5 then 7 else (5 - w) mod 7)"
    by (elim disjE) simp_all
  then show ?thesis
    unfolding getDay_def daysToComingFriday_def w_def .
qed

lemma daysToComingFriday_range: "1 \<le> daysToComingFriday tza now \<and> daysToComingFriday tza now \<le> 7"
proof -
  define w where "w = WeekDay (LocalTime tza now)"
  have "0 \<le> w \<and> w \<le> 6" unfolding w_def by (rule WeekDay_range)
  then have "w = 0 \<or> w = 1 \<or> w = 2 \<or> w = 3 \<or> w = 4 \<or> w = 5 \<or> w = 6" by arith
  then have "1 \<le> (if w = 5 then 7 else (5 - w) mod 7) \<and> (if w = 5 then 7 else (5 - w) mod 7) \<le> 7"
    by (elim disjE) simp_all
  then show ?thesis unfolding daysToComingFriday_def w_def .
qed

lemma Day_add_days: "Day (l + n * msPerDay) = Day l + n"
  by (simp add: Day_def msPerDay_def)

lemma WeekDay_add_days: "WeekDay (l + j * msPerDay) = (WeekDay l + j) mod 7"
proof -
  have "WeekDay (l + j * msPerDay) = (Day l + j + 4) mod 7"
    by (simp add: WeekDay_def Day_add_days)
  also have "Day l + j + 4 = (Day l + 4) + j"
    by simp
  also have "(Day l + 4 + j) mod 7 = ((Day l + 4) mod 7 + j) mod 7"
    by (rule mod_add_left_eq [symmetric])
  finally show ?thesis by (simp add: WeekDay_def)
qed

lemma comingFriday_is_first:
  "WeekDay (LocalTime tza now + daysToComingFriday tza now * msPerDay) = 5
   \<and> (\<forall>j. 1 \<le> j \<and> j < daysToComingFriday tza now \<longrightarrow>
          WeekDay (LocalTime tza now + j * msPerDay) \<noteq> 5)"
proof -
  define w where "w = WeekDay (LocalTime tza now)"
  have "0 \<le> w \<and> w \<le> 6" unfolding w_def by (rule WeekDay_range)
  then have "w = 0 \<or> w = 1 \<or> w = 2 \<or> w = 3 \<or> w = 4 \<or> w = 5 \<or> w = 6" by arith
  then have "(w + (if w = 5 then 7 else (5 - w) mod 7)) mod 7 = 5
     \<and> (\<forall>j. 1 \<le> j \<and> j < (if w = 5 then 7 else (5 - w) mod 7) \<longrightarrow> (w + j) mod 7 \<noteq> 5)"
    by (elim disjE) (simp_all, presburger+)
  then show ?thesis
    unfolding WeekDay_add_days daysToComingFriday_def w_def .
qed

lemma TimeWithinDay_MakeDate:
  assumes "0 \<le> t" and "t \<le> 86399999"
  shows "TimeWithinDay (MakeDate d t) = t"
proof -
  have "(d * msPerDay + t) mod msPerDay = t mod msPerDay"
    by simp
  also have "\<dots> = t" using assms by (simp add: msPerDay_def)
  finally show ?thesis by (simp add: TimeWithinDay_def MakeDate_def)
qed

lemma endOfDayAfter_Date:
  assumes "endOfDayAfter tza now n = Date u"
  shows "Day (LocalTime tza u) = Day (LocalTime tza now) + n
         \<and> TimeWithinDay (LocalTime tza u) = MakeTime 23 59 59 999"
proof -
  from assms have u: "u = UTC tza (MakeDate (Day (LocalTime tza now) + n) (MakeTime 23 59 59 999))"
    by (simp add: endOfDayAfter_def TimeClip_def split: if_splits)
  have l: "LocalTime tza u = MakeDate (Day (LocalTime tza now) + n) (MakeTime 23 59 59 999)"
    unfolding u by (simp add: LocalTime_def UTC_def)
  have "Day (LocalTime tza u) = Day (LocalTime tza now) + n"
    unfolding l by (rule Day_MakeDate) (simp_all add: MakeTime_def)
  moreover have "TimeWithinDay (LocalTime tza u) = MakeTime 23 59 59 999"
    unfolding l by (rule TimeWithinDay_MakeDate) (simp_all add: MakeTime_def)
  ultimately show ?thesis by simp
qed

text \<open>For a clock and a zone offset far from the ends of the range of time values, the
  end of a day at most ten years ahead is a valid date.\<close>

lemma endOfDayAfter_valid:
  assumes "\<bar>tza\<bar> \<le> msPerDay" and "\<bar>now\<bar> \<le> 8000000000000000" and "0 \<le> n" and "n \<le> 3660"
  shows "\<exists>u. endOfDayAfter tza now n = Date u"
proof -
  let ?l = "LocalTime tza now"
  have "Day ?l * msPerDay + TimeWithinDay ?l = ?l" by (rule Day_TimeWithinDay)
  with TimeWithinDay_bounds [of ?l]
  have d: "?l - 86399999 \<le> Day ?l * msPerDay" "Day ?l * msPerDay \<le> ?l" by linarith+
  have n: "0 \<le> n * msPerDay" "n * msPerDay \<le> 3660 * msPerDay"
    using assms(3,4) by (simp_all add: msPerDay_def)
  have "\<bar>(Day ?l + n) * msPerDay + 86399999 - tza\<bar> \<le> 8640000000000000"
    using d n assms(1,2) by (simp add: LocalTime_def msPerDay_def algebra_simps)
  then show ?thesis
    by (simp add: endOfDayAfter_def TimeClip_def UTC_def MakeDate_def MakeTime_def)
qed

lemma parseDateKeywords_falsy:
  "parseDateKeywords tza now None = None \<and> parseDateKeywords tza now (Some []) = None"
  by (simp add: parseDateKeywords_def falsyText_def)

text \<open>The rules of the parser, each under the condition that no earlier rule matches.\<close>

lemma parseDateKeywords_rules:
  assumes v: "validTime now" and ne: "t \<noteq> []" and L: "lowerText = toLowerCase t"
  shows "parseDateKeywords tza now (Some t) =
     (if jsIncludes lowerText ''today'' then Some (endOfDayAfter tza now 0)
      else if jsIncludes lowerText ''tomorrow'' then Some (endOfDayAfter tza now 1)
      else if jsIncludes lowerText ''next week'' then Some (endOfDayAfter tza now 7)
      else if jsIncludes lowerText ''this week'' \<or> jsIncludes lowerText ''end of week''
              \<or> jsIncludes lowerText ''eow''
      then Some (endOfDayAfter tza now (daysToComingFriday tza now))
      else if jsIncludes lowerText ''next month'' then Some (endOfDayNextMonth tza now)
      else (case matchIn '' day'' lowerText of
              Some ds \<Rightarrow> Some (endOfDayAfter tza now (parseInt ds))
            | None \<Rightarrow>
               (case matchIn '' week'' lowerText of
                  Some ds \<Rightarrow> Some (endOfDayAfter tza now (parseInt ds * 7))
                | None \<Rightarrow> None)))"
proof -
  have f: "\<not> falsyText (Some t)" using ne by (simp add: falsyText_def)
  have fr: "0 \<le> daysToComingFriday tza now"
    using daysToComingFriday_range [of tza now] by simp
  have days: "setHours tza (setDate tza (Date now) (getDate tza now + parseInt ds)) 23 59 59 999
      = endOfDayAfter tza now (parseInt ds)" if "matchIn '' day'' lowerText = Some ds" for ds
    using setHours_setDate [OF v matchIn_parseInt [OF that]] .
  have weeks: "setHours tza (setDate tza (Date now) (getDate tza now + parseInt ds * 7))
        23 59 59 999
      = endOfDayAfter tza now (parseInt ds * 7)" if "matchIn '' week'' lowerText = Some ds" for ds
    using setHours_setDate [OF v, of "parseInt ds * 7"] matchIn_parseInt [OF that] by simp
  show ?thesis
    unfolding parseDateKeywords_def Let_def daysUntilFriday
    using f
    by (simp add: L [symmetric] setHours_today setHours_setDate [OF v] fr
          setHours_setMonth [OF v] days weeks split: option.splits)
qed

text \<open>
  Claim C3. The parser tries its rules in the order today, tomorrow, next week, this
  week / end of week / eow, next month, "in N days", "in N weeks", and the result is that
  of the first rule that matches the lowercased text, whatever later phrases the text
  holds. A text that contains both "today" and "next week" gives the end (23:59:59.999
  local time) of the current local day.
\<close>

theorem parseDateKeywords_precedence:
  assumes v: "validTime now" and ne: "t \<noteq> []" and L: "lowerText = toLowerCase t"
  shows
   "(jsIncludes lowerText ''today'' \<longrightarrow>
       parseDateKeywords tza now (Some t) = Some (endOfDayAfter tza now 0))
    \<and> (\<not> jsIncludes lowerText ''today'' \<and> jsIncludes lowerText ''tomorrow'' \<longrightarrow>
       parseDateKeywords tza now (Some t) = Some (endOfDayAfter tza now 1))
    \<and> (\<not> jsIncludes lowerText ''today'' \<and> \<not> jsIncludes lowerText ''tomorrow''
        \<and> jsIncludes lowerText ''next week'' \<longrightarrow>
       parseDateKeywords tza now (Some t) = Some (endOfDayAfter tza now 7))
    \<and> (\<not> jsIncludes lowerText ''today'' \<and> \<not> jsIncludes lowerText ''tomorrow''
        \<and> \<not> jsIncludes lowerText ''next week''
        \<and> (jsIncludes lowerText ''this week'' \<or> jsIncludes lowerText ''end of week''
             \<or> jsIncludes lowerText ''eow'') \<longrightarrow>
       parseDateKeywords tza now (Some t)
         = Some (endOfDayAfter tza now (daysToComingFriday tza now)))
    \<and> (\<not> jsIncludes lowerText ''today'' \<and> \<not> jsIncludes lowerText ''tomorrow''
        \<and> \<not> jsIncludes lowerText ''next week''
        \<and> \<not> jsIncludes lowerText ''this week'' \<and> \<not> jsIncludes lowerText ''end of week''
        \<and> \<not> jsIncludes lowerText ''eow'' \<and> jsIncludes lowerText ''next month'' \<longrightarrow>
       parseDateKeywords tza now (Some t) = Some (endOfDayNextMonth tza now))
    \<and> (\<forall>ds. \<not> jsIncludes lowerText ''today'' \<and> \<not> jsIncludes lowerText ''tomorrow''
        \<and> \<not> jsIncludes lowerText ''next week''
        \<and> \<not> jsIncludes lowerText ''this week'' \<and> \<not> jsIncludes lowerText ''end of week''
        \<and> \<not> jsIncludes lowerText ''eow'' \<and> \<not> jsIncludes lowerText ''next month''
        \<and> matchIn '' day'' lowerText = Some ds \<longrightarrow>
       parseDateKeywords tza now (Some t) = Some (endOfDayAfter tza now (parseInt ds)))
    \<and> (\<forall>ds. \<not> jsIncludes lowerText ''today'' \<and> \<not> jsIncludes lowerText ''tomorrow''
        \<and> \<not> jsIncludes lowerText ''next week''
        \<and> \<not> jsIncludes lowerText ''this week'' \<and> \<not> jsIncludes lowerText ''end of week''
        \<and> \<not> jsIncludes lowerText ''eow'' \<and> \<not> jsIncludes lowerText ''next month''
        \<and> matchIn '' day'' lowerText = None \<and> matchIn '' week'' lowerText = Some ds \<longrightarrow>
       parseDateKeywords tza now (Some t) = Some (endOfDayAfter tza now (parseInt ds * 7)))
    \<and> (\<not> jsIncludes lowerText ''today'' \<and> \<not> jsIncludes lowerText ''tomorrow''
        \<and> \<not> jsIncludes lowerText ''next week''
        \<and> \<not> jsIncludes lowerText ''this week'' \<and> \<not> jsIncludes lowerText ''end of week''
        \<and> \<not> jsIncludes lowerText ''eow'' \<and> \<not> jsIncludes lowerText ''next month''
        \<and> matchIn '' day'' lowerText = None \<and> matchIn '' week'' lowerText = None \<longrightarrow>
       parseDateKeywords tza now (Some t) = None)
    \<and> (jsIncludes t ''today'' \<and> jsIncludes t ''next week'' \<longrightarrow>
       parseDateKeywords tza now (Some t) = Some (endOfDayAfter tza now 0))
    \<and> (\<forall>u. endOfDayAfter tza now 0 = Date u \<longrightarrow>
          Day (LocalTime tza u) = Day (LocalTime tza now)
          \<and> TimeWithinDay (LocalTime tza u) = MakeTime 23 59 59 999)
    \<and> (\<bar>tza\<bar> \<le> msPerDay \<and> \<bar>now\<bar> \<le> 8000000000000000 \<longrightarrow>
          (\<exists>u. endOfDayAfter tza now 0 = Date u))"
proof -
  note r = parseDateKeywords_rules [OF v ne L, of tza]
  have low: "toLowerCase ''today'' = ''today''"
    by (simp add: toLowerCase_def lowerChar_def code_def)
  have today: "jsIncludes lowerText ''today''" if "jsIncludes t ''today''"
    unfolding L using that low by (rule jsIncludes_toLowerCase)
  have eod: "Day (LocalTime tza u) = Day (LocalTime tza now)
      \<and> TimeWithinDay (LocalTime tza u) = MakeTime 23 59 59 999"
    if "endOfDayAfter tza now 0 = Date u" for u
    using endOfDayAfter_Date [OF that] by simp
  have val: "\<exists>u. endOfDayAfter tza now 0 = Date u"
    if "\<bar>tza\<bar> \<le> msPerDay \<and> \<bar>now\<bar> \<le> 8000000000000000"
    using that by (intro endOfDayAfter_valid) simp_all
  show ?thesis
    unfolding r using today eod val by simp
qed

theorem parseDateKeywords_precedence_witness:
  "validTime 1793700000000
   \<and> jsIncludes ''Finish today or next week'' ''today''
   \<and> jsIncludes ''Finish today or next week'' ''next week''
   \<and> parseDateKeywords 0 1793700000000 (Some ''Finish today or next week'')
       = Some (Date 1793750399999)"
proof -
  have v: "validTime 1793700000000" by (simp add: validTime_def)
  have ne: "''Finish today or next week'' \<noteq> []" by simp
  have a: "jsIncludes ''Finish today or next week'' ''today''" by code_simp
  have b: "jsIncludes ''Finish today or next week'' ''next week''" by code_simp
  have e: "endOfDayAfter 0 1793700000000 0 = Date 1793750399999"
    by (simp add: endOfDayAfter_def TimeClip_def UTC_def MakeDate_def MakeTime_def Day_def
          LocalTime_def msPerDay_def)
  note t = parseDateKeywords_precedence [OF v ne refl, of 0]
  note t9 = t [THEN conjunct2, THEN conjunct2, THEN conjunct2, THEN conjunct2, THEN conjunct2,
      THEN conjunct2, THEN conjunct2, THEN conjunct2, THEN conjunct1, rule_format, OF conjI,
      OF a b]
  show ?thesis
    by (intro conjI) (rule v, rule a, rule b, simp only: t9 e)
qed

text \<open>
  Claim C4. For a text with "this week", "end of week" or "eow" that no earlier rule
  matches, the parser gives 23:59:59.999 local time of the first Friday after the current
  local day. That day is one to seven days ahead; when the current day is a Friday it is
  the Friday seven days later, never the current day.
\<close>

theorem parseDateKeywords_this_week:
  assumes v: "validTime now" and ne: "t \<noteq> []" and L: "lowerText = toLowerCase t"
    and e1: "\<not> jsIncludes lowerText ''today''"
    and e2: "\<not> jsIncludes lowerText ''tomorrow''"
    and e3: "\<not> jsIncludes lowerText ''next week''"
    and w: "jsIncludes lowerText ''this week'' \<or> jsIncludes lowerText ''end of week''
            \<or> jsIncludes lowerText ''eow''"
    and k: "k = daysToComingFriday tza now"
  shows "parseDateKeywords tza now (Some t) = Some (endOfDayAfter tza now k)
     \<and> 1 \<le> k \<and> k \<le> 7
     \<and> WeekDay (LocalTime tza now + k * msPerDay) = 5
     \<and> (\<forall>j. 1 \<le> j \<and> j < k \<longrightarrow> WeekDay (LocalTime tza now + j * msPerDay) \<noteq> 5)
     \<and> (WeekDay (LocalTime tza now) = 5 \<longrightarrow> k = 7)
     \<and> (\<forall>u. endOfDayAfter tza now k = Date u \<longrightarrow>
           WeekDay (LocalTime tza u) = 5
           \<and> Day (LocalTime tza u) = Day (LocalTime tza now) + k
           \<and> Day (LocalTime tza now) < Day (LocalTime tza u)
           \<and> TimeWithinDay (LocalTime tza u) = MakeTime 23 59 59 999)
     \<and> (\<bar>tza\<bar> \<le> msPerDay \<and> \<bar>now\<bar> \<le> 8000000000000000 \<longrightarrow>
           (\<exists>u. endOfDayAfter tza now k = Date u))"
proof (intro conjI allI impI)
  show "parseDateKeywords tza now (Some t) = Some (endOfDayAfter tza now k)"
    unfolding parseDateKeywords_rules [OF v ne L, of tza] k using e1 e2 e3 w by simp
  show k1: "1 \<le> k" and k7: "k \<le> 7"
    unfolding k using daysToComingFriday_range [of tza now] by simp_all
  show fri: "WeekDay (LocalTime tza now + k * msPerDay) = 5"
    unfolding k using comingFriday_is_first [of tza now] by simp
  show "WeekDay (LocalTime tza now + j * msPerDay) \<noteq> 5" if "1 \<le> j \<and> j < k" for j
    using that comingFriday_is_first [of tza now] unfolding k by blast
  show "k = 7" if "WeekDay (LocalTime tza now) = 5"
    unfolding k using that by (simp add: daysToComingFriday_def)
  show "\<exists>u. endOfDayAfter tza now k = Date u"
    if "\<bar>tza\<bar> \<le> msPerDay \<and> \<bar>now\<bar> \<le> 8000000000000000"
    using that k1 k7 by (intro endOfDayAfter_valid) simp_all
next
  fix u assume u: "endOfDayAfter tza now k = Date u"
  note d = endOfDayAfter_Date [OF u]
  have k1: "1 \<le> k"
    unfolding k using daysToComingFriday_range [of tza now] by simp
  from d show "Day (LocalTime tza u) = Day (LocalTime tza now) + k" by simp
  from d k1 show "Day (LocalTime tza now) < Day (LocalTime tza u)" by simp
  from d show "TimeWithinDay (LocalTime tza u) = MakeTime 23 59 59 999" by simp
  have "WeekDay (LocalTime tza u) = WeekDay (LocalTime tza now + k * msPerDay)"
    using d by (simp add: WeekDay_def Day_add_days)
  then show "WeekDay (LocalTime tza u) = 5"
    unfolding k using comingFriday_is_first [of tza now] by simp
qed

theorem parseDateKeywords_this_week_witness:
  "validTime 1793959200000
   \<and> WeekDay (LocalTime 0 1793959200000) = 5
   \<and> jsIncludes (toLowerCase ''Report due this week'') ''this week''
   \<and> daysToComingFriday 0 1793959200000 = 7
   \<and> parseDateKeywords 0 1793959200000 (Some ''Report due this week'')
       = Some (Date 1794614399999)
   \<and> WeekDay (LocalTime 0 1794614399999) = 5"
proof -
  have v: "validTime 1793959200000" by (simp add: validTime_def)
  have ne: "''Report due this week'' \<noteq> []" by simp
  have e1: "\<not> jsIncludes (toLowerCase ''Report due this week'') ''today''" by code_simp
  have e2: "\<not> jsIncludes (toLowerCase ''Report due this week'') ''tomorrow''" by code_simp
  have e3: "\<not> jsIncludes (toLowerCase ''Report due this week'') ''next week''" by code_simp
  have w: "jsIncludes (toLowerCase ''Report due this week'') ''this week''" by code_simp
  have wd: "WeekDay (LocalTime 0 1793959200000) = 5"
    by (simp add: WeekDay_def LocalTime_def Day_def msPerDay_def)
  note t = parseDateKeywords_this_week [OF v ne refl e1 e2 e3 disjI1 [OF w] refl, of 0]
  note k = t [THEN conjunct2, THEN conjunct2, THEN conjunct2, THEN conjunct2, THEN conjunct2,
      THEN conjunct1, rule_format, OF wd]
  have e: "endOfDayAfter 0 1793959200000 7 = Date 1794614399999"
    by (simp add: endOfDayAfter_def TimeClip_def UTC_def MakeDate_def MakeTime_def Day_def
          LocalTime_def msPerDay_def)
  have p: "parseDateKeywords 0 1793959200000 (Some ''Report due this week'')
       = Some (Date 1794614399999)"
    using t [THEN conjunct1] unfolding k e .
  note f = t [THEN conjunct2, THEN conjunct2, THEN conjunct2, THEN conjunct2, THEN conjunct2,
      THEN conjunct2, THEN conjunct1, rule_format, unfolded k, OF e, THEN conjunct1]
  show ?thesis
    by (intro conjI) (rule v, rule wd, rule w, rule k, rule p, rule f)
qed

section \<open>Properties of the tokenizer\<close>

lemma code_less: "code c < 256"
  by (simp add: code_def)

lemma code_lowerChar:
  "code (lowerChar c) =
     (if (65 \<le> code c \<and> code c \<le> 90) \<or> (192 \<le> code c \<and> code c \<le> 222 \<and> code c \<noteq> 215)
      then code c + 32 else code c)"
  by (auto simp: lowerChar_def Let_def code_def)

lemma lowerChar_idem: "lowerChar (lowerChar c) = lowerChar c"
proof -
  have "code (lowerChar (lowerChar c)) = code (lowerChar c)"
    by (simp add: code_lowerChar)
  then show ?thesis by (simp add: code_def)
qed

lemma toLowerCase_fixed: "c \<in> set (toLowerCase s) \<Longrightarrow> lowerChar c = c"
  by (auto simp: toLowerCase_def lowerChar_idem)

lemma lowerChar_space: "lowerChar (CHR '' '') = CHR '' ''"
  by (simp add: lowerChar_def code_def)

lemma isSpace_space: "isSpace (CHR '' '')"
  by (simp add: isSpace_def code_def)

lemma replaceNonWord_class: "c \<in> set (replaceNonWord s) \<Longrightarrow> isWordChar c \<or> isSpace c"
  by (auto simp: replaceNonWord_def isSpace_space)

lemma replaceNonWord_fixed:
  "\<forall>c\<in>set s. lowerChar c = c \<Longrightarrow> c \<in> set (replaceNonWord s) \<Longrightarrow> lowerChar c = c"
  by (auto simp: replaceNonWord_def lowerChar_space split: if_splits)

lemma splitWs_chars: "w \<in> set (splitWs s) \<Longrightarrow> c \<in> set w \<Longrightarrow> c \<in> set s \<and> \<not> isSpace c"
proof (induction s arbitrary: w rule: splitWs.induct)
  case (1 s)
  let ?piece = "takeWhile (\<lambda>c. \<not> isSpace c) s"
  let ?rest = "dropWhile (\<lambda>c. \<not> isSpace c) s"
  show ?case
  proof (cases "w = ?piece")
    case True
    with "1.prems"(2) show ?thesis
      by (auto dest: set_takeWhileD)
  next
    case False
    with "1.prems"(1) have ne: "?rest \<noteq> []" and w: "w \<in> set (splitWs (dropWhile isSpace ?rest))"
      by (auto simp: splitWs.simps [of s] Let_def split: if_splits)
    from "1.IH" [OF refl refl ne w "1.prems"(2)]
    have "c \<in> set (dropWhile isSpace ?rest)" and "\<not> isSpace c" by auto
    then show ?thesis
      by (auto dest!: set_dropWhileD)
  qed
qed

lemma splitWs_Nil: "splitWs [] = [[]]"
  by (simp add: splitWs.simps [of "[]"])

lemma extractWords_iff:
  "w |\<in>| extractWords (Some t) \<longleftrightarrow>
     w \<in> set (splitWs (replaceNonWord (toLowerCase t))) \<and> length w > 2 \<and> w \<notin> set stopWords"
proof (cases "t = []")
  case True
  then show ?thesis
    by (auto simp: extractWords_def falsyText_def toLowerCase_def replaceNonWord_def splitWs_Nil)
next
  case False
  then show ?thesis
    by (auto simp: extractWords_def falsyText_def fset_of_list_elem keepWord_def)
qed

lemma extractWords_None: "extractWords None = {||}"
  by (simp add: extractWords_def falsyText_def)

lemma extractWords_token_chars:
  assumes "w |\<in>| extractWords text" and "c \<in> set w"
  shows "isWordChar c \<and> \<not> isSpace c \<and> lowerChar c = c"
proof -
  from assms(1) obtain t where t: "text = Some t"
    by (cases "text") (auto simp: extractWords_None)
  let ?r = "replaceNonWord (toLowerCase t)"
  from assms(1) t have "w \<in> set (splitWs ?r)" by (simp add: extractWords_iff)
  from splitWs_chars [OF this assms(2)] have c: "c \<in> set ?r" "\<not> isSpace c" by auto
  from replaceNonWord_class [OF c(1)] c(2) have "isWordChar c" by blast
  moreover have "lowerChar c = c"
    using replaceNonWord_fixed [of "toLowerCase t" c] toLowerCase_fixed [of _ t] c(1) by blast
  ultimately show ?thesis using c(2) by blast
qed

text \<open>
  Claim C10. The tokenizer lowercases the text, replaces every character that is neither a
  word character nor whitespace by a space, splits at the runs of whitespace and keeps
  exactly the pieces longer than two characters that are not stop words. So no token has
  length 2 or less, none is a stop word, and every character of a token is a word
  character that lowercasing leaves as it is. An undefined or empty text gives the empty
  set.
\<close>

theorem extractWords_tokens:
  "extractWords None = {||} \<and> extractWords (Some []) = {||}
   \<and> (\<forall>w. w |\<in>| extractWords (Some t) \<longleftrightarrow>
          w \<in> set (splitWs (replaceNonWord (toLowerCase t))) \<and> length w > 2
          \<and> w \<notin> set stopWords)
   \<and> (\<forall>w. w |\<in>| extractWords text \<longrightarrow>
          length w > 2 \<and> w \<notin> set stopWords
          \<and> (\<forall>c\<in>set w. isWordChar c \<and> \<not> isSpace c \<and> lowerChar c = c))"
proof (intro conjI allI impI ballI)
  show "extractWords None = {||}" by (rule extractWords_None)
  show "extractWords (Some []) = {||}" by (simp add: extractWords_def falsyText_def)
  show "w |\<in>| extractWords (Some t) \<longleftrightarrow>
          w \<in> set (splitWs (replaceNonWord (toLowerCase t))) \<and> length w > 2
          \<and> w \<notin> set stopWords" for w
    by (rule extractWords_iff)
next
  fix w assume w: "w |\<in>| extractWords text"
  then obtain t where t: "text = Some t"
    by (cases "text") (auto simp: extractWords_None)
  from w t show "length w > 2" by (simp add: extractWords_iff)
  from w t show "w \<notin> set stopWords" by (simp add: extractWords_iff)
  fix c assume "c \<in> set w"
  from extractWords_token_chars [OF w this]
  show "isWordChar c" "\<not> isSpace c" "lowerChar c = c" by auto
qed

theorem extractWords_tokens_witness:
  "''login'' |\<in>| extractWords (Some ''Fix the Login-page, to do NOW!'')
   \<and> length ''login'' > 2 \<and> ''login'' \<notin> set stopWords
   \<and> isWordChar CHR ''l'' \<and> \<not> isSpace CHR ''l'' \<and> lowerChar CHR ''l'' = CHR ''l''
   \<and> ''the'' |\<notin>| extractWords (Some ''Fix the Login-page, to do NOW!'')
   \<and> ''to'' |\<notin>| extractWords (Some ''Fix the Login-page, to do NOW!'')"
proof -
  have m: "''login'' |\<in>| extractWords (Some ''Fix the Login-page, to do NOW!'')"
    by code_simp
  have s: "''the'' \<in> set stopWords" by (simp add: stopWords_def)
  have l: "\<not> length ''to'' > 2" by simp
  have e: "CHR ''l'' \<in> set ''login''" by simp
  note t = extractWords_tokens
    [of "''Fix the Login-page, to do NOW!''" "Some ''Fix the Login-page, to do NOW!''",
     THEN conjunct2, THEN conjunct2, THEN conjunct2, rule_format]
  note a = t [OF m]
  note a1 = a [THEN conjunct1]
  note a2 = a [THEN conjunct2, THEN conjunct1]
  note a3 = a [THEN conjunct2, THEN conjunct2, rule_format, OF e]
  from t [of "''the''"] s
  have b: "''the'' |\<notin>| extractWords (Some ''Fix the Login-page, to do NOW!'')"
    by (intro notI) simp
  from t [of "''to''"] l
  have c: "''to'' |\<notin>| extractWords (Some ''Fix the Login-page, to do NOW!'')"
    by (intro notI) simp
  show ?thesis
    by (intro conjI) (rule m, rule a1, rule a2, rule a3 [THEN conjunct1],
      rule a3 [THEN conjunct2, THEN conjunct1], rule a3 [THEN conjunct2, THEN conjunct2],
      rule b, rule c)
qed

section \<open>Properties of the list-movement matcher\<close>

lemma checkPatterns_find:
  "checkPatterns text c allLists ps =
     (case find (patternFires text c allLists) ps of
        None \<Rightarrow> None
      | Some p \<Rightarrow>
          Some \<lparr>listId = l_id (the (matchingList allLists p)),
                listTitle = l_title (the (matchingList allLists p)),
                reason = p_reason p\<rparr>)"
  by (induction ps) (auto simp: patternFires_def split: option.splits)

lemma matchingList_Nil: "matchingList [] p = None"
  by (simp add: matchingList_def)

lemma suggestListMovement_find:
  "suggestListMovement c allLists =
     (case find (patternFires (toLowerCase (cardText c)) c allLists) listPatterns of
        None \<Rightarrow> None
      | Some p \<Rightarrow>
          Some \<lparr>listId = l_id (the (matchingList allLists p)),
                listTitle = l_title (the (matchingList allLists p)),
                reason = p_reason p\<rparr>)"
proof (cases "allLists = []")
  case False
  then show ?thesis by (simp add: suggestListMovement_def checkPatterns_find)
next
  case True
  have "find (patternFires s c []) ps = None" for s ps
    by (induction ps) (simp_all add: patternFires_def matchingList_Nil)
  with True show ?thesis by (simp add: suggestListMovement_def)
qed

lemma matchingList_Some:
  assumes "matchingList allLists p = Some m"
  shows "m \<in> set allLists
     \<and> (\<exists>f\<in>set (p_listTitles p). jsIncludes (toLowerCase (l_title m)) f)"
  using assms unfolding matchingList_def
  by (auto simp: find_Some_iff list_ex_iff)

lemma matchingList_None:
  "matchingList allLists p = None \<longleftrightarrow>
     (\<forall>m\<in>set allLists. \<forall>f\<in>set (p_listTitles p). \<not> jsIncludes (toLowerCase (l_title m)) f)"
  unfolding matchingList_def by (auto simp: find_None_iff list_ex_iff)

text \<open>
  Claim C5. \<^verbatim>\<open>suggestListMovement\<close> goes through the four keyword categories in their
  fixed order. A category counts when one of its keywords occurs in the lowercased title
  and description and the first list of the board whose lowercased title holds one of
  its fragments is not the card's current list; the result is that list with the reason
  of the first category that counts. A category whose list is the current list (or that
  finds no list) is passed over for the next one, and the result is nothing when no
  category counts, as when every list that matches a fragment is the current list.
\<close>

theorem suggestListMovement_first_pattern:
  assumes T: "text = toLowerCase (cardText c)"
  shows
   "(suggestListMovement c allLists = None \<longleftrightarrow>
        (\<forall>p\<in>set listPatterns. \<not> patternFires text c allLists p))
    \<and> (\<forall>r. suggestListMovement c allLists = Some r \<longleftrightarrow>
         (\<exists>i<length listPatterns.
            patternFires text c allLists (listPatterns ! i)
            \<and> (\<forall>j<i. \<not> patternFires text c allLists (listPatterns ! j))
            \<and> r = \<lparr>listId = l_id (the (matchingList allLists (listPatterns ! i))),
                    listTitle = l_title (the (matchingList allLists (listPatterns ! i))),
                    reason = p_reason (listPatterns ! i)\<rparr>))
    \<and> (\<forall>r. suggestListMovement c allLists = Some r \<longrightarrow>
         listId r \<noteq> c_list c
         \<and> (\<exists>p\<in>set listPatterns. \<exists>m\<in>set allLists.
               hasKeyword text p
               \<and> (\<exists>f\<in>set (p_listTitles p). jsIncludes (toLowerCase (l_title m)) f)
               \<and> listId r = l_id m \<and> listTitle r = l_title m \<and> reason r = p_reason p))
    \<and> ((\<forall>p\<in>set listPatterns. \<forall>m\<in>set allLists.
           (\<exists>f\<in>set (p_listTitles p). jsIncludes (toLowerCase (l_title m)) f)
             \<longrightarrow> l_id m = c_list c)
         \<longrightarrow> suggestListMovement c allLists = None)
    \<and> map p_reason listPatterns =
         [''Keywords suggest work has started'', ''Keywords suggest task is completed'',
          ''Keywords suggest task needs testing/review'', ''Keywords suggest task is blocked'']"
proof (intro conjI allI impI)
  note s = suggestListMovement_find [of c allLists, folded T]
  show "suggestListMovement c allLists = None \<longleftrightarrow>
        (\<forall>p\<in>set listPatterns. \<not> patternFires text c allLists p)"
  proof -
    have "suggestListMovement c allLists = None \<longleftrightarrow>
        find (patternFires text c allLists) listPatterns = None"
      unfolding s by (simp split: option.splits)
    then show ?thesis by (auto simp: find_None_iff)
  qed
  show "suggestListMovement c allLists = Some r \<longleftrightarrow>
         (\<exists>i<length listPatterns.
            patternFires text c allLists (listPatterns ! i)
            \<and> (\<forall>j<i. \<not> patternFires text c allLists (listPatterns ! j))
            \<and> r = \<lparr>listId = l_id (the (matchingList allLists (listPatterns ! i))),
                    listTitle = l_title (the (matchingList allLists (listPatterns ! i))),
                    reason = p_reason (listPatterns ! i)\<rparr>)" for r
  proof -
    have "suggestListMovement c allLists = Some r \<longleftrightarrow>
        (\<exists>p. find (patternFires text c allLists) listPatterns = Some p
           \<and> r = \<lparr>listId = l_id (the (matchingList allLists p)),
                    listTitle = l_title (the (matchingList allLists p)),
                    reason = p_reason p\<rparr>)"
      unfolding s by (auto split: option.splits)
    then show ?thesis
      unfolding find_Some_iff by blast
  qed
  show "map p_reason listPatterns =
         [''Keywords suggest work has started'', ''Keywords suggest task is completed'',
          ''Keywords suggest task needs testing/review'', ''Keywords suggest task is blocked'']"
    by (simp add: listPatterns_def)
  show "suggestListMovement c allLists = None"
    if h: "\<forall>p\<in>set listPatterns. \<forall>m\<in>set allLists.
           (\<exists>f\<in>set (p_listTitles p). jsIncludes (toLowerCase (l_title m)) f)
             \<longrightarrow> l_id m = c_list c"
  proof -
    have "\<not> patternFires text c allLists p" if p: "p \<in> set listPatterns" for p
    proof (cases "matchingList allLists p")
      case None
      then show ?thesis by (simp add: patternFires_def)
    next
      case (Some m)
      from matchingList_Some [OF Some] h p have "l_id m = c_list c" by blast
      with Some show ?thesis by (simp add: patternFires_def)
    qed
    then have "find (patternFires text c allLists) listPatterns = None"
      by (auto simp: find_None_iff)
    then show ?thesis
      unfolding s by simp
  qed
next
  fix r assume r: "suggestListMovement c allLists = Some r"
  note s = suggestListMovement_find [of c allLists, folded T]
  from r obtain p where f: "find (patternFires text c allLists) listPatterns = Some p"
    and rp: "r = \<lparr>listId = l_id (the (matchingList allLists p)),
                    listTitle = l_title (the (matchingList allLists p)),
                    reason = p_reason p\<rparr>"
    unfolding s by (auto split: option.splits)
  from f have pin: "p \<in> set listPatterns" and fires: "patternFires text c allLists p"
    by (auto simp: find_Some_iff)
  from fires obtain m where m: "matchingList allLists p = Some m" and ne: "l_id m \<noteq> c_list c"
    and kw: "hasKeyword text p"
    by (auto simp: patternFires_def split: option.splits)
  from rp m ne show "listId r \<noteq> c_list c" by simp
  from matchingList_Some [OF m] pin kw rp m
  show "\<exists>p\<in>set listPatterns. \<exists>m\<in>set allLists.
               hasKeyword text p
               \<and> (\<exists>f\<in>set (p_listTitles p). jsIncludes (toLowerCase (l_title m)) f)
               \<and> listId r = l_id m \<and> listTitle r = l_title m \<and> reason r = p_reason p"
    by (intro bexI [of _ p] bexI [of _ m]) simp_all
qed

theorem suggestListMovement_first_pattern_witness:
  "patternFires (toLowerCase (cardText doneCard)) doneCard threeLists (listPatterns ! 2)
   \<and> \<not> patternFires (toLowerCase (cardText doneCard)) doneCard threeLists (listPatterns ! 1)
   \<and> \<not> patternFires (toLowerCase (cardText doneCard)) doneCard threeLists (listPatterns ! 0)
   \<and> hasKeyword (toLowerCase (cardText doneCard)) (listPatterns ! 1)
   \<and> suggestListMovement doneCard threeLists
       = Some \<lparr>listId = ''l2'', listTitle = ''Testing'',
               reason = ''Keywords suggest task needs testing/review''\<rparr>"
proof -
  have f2: "patternFires (toLowerCase (cardText doneCard)) doneCard threeLists (listPatterns ! 2)"
    by code_simp
  have f1: "\<not> patternFires (toLowerCase (cardText doneCard)) doneCard threeLists (listPatterns ! 1)"
    by code_simp
  have f0: "\<not> patternFires (toLowerCase (cardText doneCard)) doneCard threeLists (listPatterns ! 0)"
    by code_simp
  have k1: "hasKeyword (toLowerCase (cardText doneCard)) (listPatterns ! 1)"
    by code_simp
  have v: "\<lparr>listId = l_id (the (matchingList threeLists (listPatterns ! 2))),
             listTitle = l_title (the (matchingList threeLists (listPatterns ! 2))),
             reason = p_reason (listPatterns ! 2)\<rparr>
        = \<lparr>listId = ''l2'', listTitle = ''Testing'',
            reason = ''Keywords suggest task needs testing/review''\<rparr>"
    by code_simp
  have len: "2 < length listPatterns" by (simp add: listPatterns_def)
  have before: "\<forall>j<2. \<not> patternFires (toLowerCase (cardText doneCard)) doneCard threeLists
      (listPatterns ! j)"
  proof (intro allI impI)
    fix j :: nat assume "j < 2"
    then have "j = 0 \<or> j = 1" by arith
    then show "\<not> patternFires (toLowerCase (cardText doneCard)) doneCard threeLists
      (listPatterns ! j)" using f0 f1 by auto
  qed
  note t = suggestListMovement_first_pattern [OF refl, of doneCard threeLists,
      THEN conjunct2, THEN conjunct1, rule_format]
  have "suggestListMovement doneCard threeLists
       = Some \<lparr>listId = ''l2'', listTitle = ''Testing'',
               reason = ''Keywords suggest task needs testing/review''\<rparr>"
    unfolding t using len f2 before v [symmetric] by blast
  with f2 f1 f0 k1 show ?thesis by blast
qed

section \<open>Properties of the related-card finder\<close>

lemma jaccard_empty_left: "jaccardSimilarity {||} B = 0"
  by (simp add: jaccard_formula)

lemma describedRelatedCards_unfold:
  "describedRelatedCards c allCards limit threshold =
     take limit
       (sortBySimilarity
          (filter (\<lambda>item. similarity item \<ge> threshold)
             (map (scoreCard (extractWords (Some (cardText c))))
                (filter (\<lambda>c'. c_id c' \<noteq> c_id c) allCards))))"
  by (simp add: describedRelatedCards_def rankedCandidates_def keptCandidates_def
        scoredCandidates_def sortBySimilarity_def)

lemma describedRelatedCards_Nil: "describedRelatedCards c [] limit threshold = []"
  by (simp add: describedRelatedCards_unfold sortBySimilarity_def)

lemma keptCandidates_no_words:
  assumes "extractWords (Some (cardText c)) = {||}" and "0 < threshold"
  shows "keptCandidates c allCards threshold = []"
  using assms
  by (auto simp: keptCandidates_def scoredCandidates_def scoreCard_def Let_def
        jaccard_empty_left filter_empty_conv)

lemma findRelatedCards_no_words:
  "extractWords (Some (cardText c)) = {||} \<Longrightarrow> findRelatedCards c allCards limit threshold = []"
  by (simp add: findRelatedCards_def Let_def)

lemma findRelatedCards_described:
  assumes "extractWords (Some (cardText c)) \<noteq> {||} \<or> 0 < threshold"
  shows "findRelatedCards c allCards limit threshold
         = describedRelatedCards c allCards limit threshold"
proof (cases "extractWords (Some (cardText c)) = {||}")
  case True
  with assms have "0 < threshold" by simp
  with True have "describedRelatedCards c allCards limit threshold = []"
    by (simp add: describedRelatedCards_def rankedCandidates_def keptCandidates_no_words)
  with True show ?thesis by (simp add: findRelatedCards_no_words)
next
  case False
  show ?thesis
  proof (cases "allCards = []")
    case True
    then show ?thesis by (simp add: findRelatedCards_def describedRelatedCards_Nil)
  next
    case F: False
    with False show ?thesis
      by (simp add: findRelatedCards_def Let_def describedRelatedCards_unfold)
  qed
qed

lemma rankedCandidates_sorted:
  "sorted_wrt (\<lambda>a b. similarity b \<le> similarity a) (rankedCandidates c allCards threshold)"
proof -
  have "sorted (map (\<lambda>item. - similarity item) (rankedCandidates c allCards threshold))"
    unfolding rankedCandidates_def by (rule sorted_sort_key)
  then show ?thesis
    by (simp add: sorted_map)
qed

lemma rankedCandidates_stable:
  "filter (\<lambda>item. similarity item = k) (rankedCandidates c allCards threshold)
   = filter (\<lambda>item. similarity item = k) (keptCandidates c allCards threshold)"
  using sort_key_stable [of "\<lambda>item. - similarity item" "- k" "keptCandidates c allCards threshold"]
  by (simp add: rankedCandidates_def)

lemma rankedCandidates_set:
  "set (rankedCandidates c allCards threshold) = set (keptCandidates c allCards threshold)"
  by (simp add: rankedCandidates_def)

lemma keptCandidates_member:
  assumes "r \<in> set (keptCandidates c allCards threshold)"
  shows "threshold \<le> similarity r \<and> s_id (r_card r) \<noteq> c_id c
     \<and> (\<exists>c'\<in>set allCards. c_id c' \<noteq> c_id c
           \<and> r = \<lparr>r_card = \<lparr>s_id = c_id c', s_title = c_title c', s_list = c_list c',
                             s_dueDate = c_dueDate c'\<rparr>,
                    similarity = jaccardSimilarity (extractWords (Some (cardText c)))
                                   (extractWords (Some (cardText c')))\<rparr>)"
  using assms
  by (auto simp: keptCandidates_def scoredCandidates_def scoreCard_def Let_def)

text \<open>
  Claim C2, as amended. When the title and description of the target card give no word,
  \<^verbatim>\<open>findRelatedCards\<close> returns the empty list, whatever the threshold. Otherwise, and
  also whenever the threshold is positive, it returns the described ranking: the cards
  other than the target (by identifier), each scored by the Jaccard similarity of the word
  sets, the scores that reach the threshold kept, sorted by descending score with ties in
  source order, cut at the limit. \<^verbatim>\<open>analyzeCard\<close> calls it with limit 5 and threshold 0.2.
  In every case a result is the summary and score of a card other than the target, with a
  score that reaches the threshold, and there are at most \<open>limit\<close> results.
\<close>

theorem findRelatedCards_ranking:
  assumes W: "currentWords = extractWords (Some (cardText c))"
  shows
   "(currentWords = {||} \<longrightarrow> findRelatedCards c allCards limit threshold = [])
    \<and> (currentWords \<noteq> {||} \<or> 0 < threshold \<longrightarrow>
         findRelatedCards c allCards limit threshold
         = describedRelatedCards c allCards limit threshold)
    \<and> relatedCards (analyzeCard tza now1 now2 c allCards boardLists)
        = describedRelatedCards c allCards 5 0.2
    \<and> (\<forall>r\<in>set (findRelatedCards c allCards limit threshold).
          threshold \<le> similarity r \<and> s_id (r_card r) \<noteq> c_id c
          \<and> (\<exists>c'\<in>set allCards. c_id c' \<noteq> c_id c
                \<and> r = \<lparr>r_card = \<lparr>s_id = c_id c', s_title = c_title c', s_list = c_list c',
                                  s_dueDate = c_dueDate c'\<rparr>,
                         similarity = jaccardSimilarity currentWords
                                        (extractWords (Some (cardText c')))\<rparr>))
    \<and> length (findRelatedCards c allCards limit threshold) \<le> limit
    \<and> sorted_wrt (\<lambda>a b. similarity b \<le> similarity a)
         (findRelatedCards c allCards limit threshold)
    \<and> describedRelatedCards c allCards limit threshold
        = take limit (rankedCandidates c allCards threshold)
    \<and> (\<forall>k. filter (\<lambda>item. similarity item = k) (rankedCandidates c allCards threshold)
             = filter (\<lambda>item. similarity item = k) (keptCandidates c allCards threshold))"
proof -
  let ?f = "findRelatedCards c allCards limit threshold"
  let ?d = "describedRelatedCards c allCards limit threshold"
  have a: "?f = []" if "currentWords = {||}"
    using that unfolding W by (rule findRelatedCards_no_words)
  have b: "?f = ?d" if "currentWords \<noteq> {||} \<or> 0 < threshold"
    using that unfolding W by (rule findRelatedCards_described)
  have cases: "?f = [] \<or> ?f = ?d" using a b by blast
  have c: "relatedCards (analyzeCard tza now1 now2 c allCards boardLists)
        = describedRelatedCards c allCards 5 0.2"
    by (simp add: analyzeCard_def Let_def findRelatedCards_described)
  have dm: "threshold \<le> similarity r \<and> s_id (r_card r) \<noteq> c_id c
          \<and> (\<exists>c'\<in>set allCards. c_id c' \<noteq> c_id c
                \<and> r = \<lparr>r_card = \<lparr>s_id = c_id c', s_title = c_title c', s_list = c_list c',
                                  s_dueDate = c_dueDate c'\<rparr>,
                         similarity = jaccardSimilarity currentWords
                                        (extractWords (Some (cardText c')))\<rparr>)"
    if "r \<in> set ?d" for r
  proof -
    from that have "r \<in> set (rankedCandidates c allCards threshold)"
      unfolding describedRelatedCards_def by (rule in_set_takeD)
    then have "r \<in> set (keptCandidates c allCards threshold)"
      by (simp add: rankedCandidates_set)
    from keptCandidates_member [OF this] show ?thesis unfolding W .
  qed
  have d: "\<forall>r\<in>set ?f. threshold \<le> similarity r \<and> s_id (r_card r) \<noteq> c_id c
          \<and> (\<exists>c'\<in>set allCards. c_id c' \<noteq> c_id c
                \<and> r = \<lparr>r_card = \<lparr>s_id = c_id c', s_title = c_title c', s_list = c_list c',
                                  s_dueDate = c_dueDate c'\<rparr>,
                         similarity = jaccardSimilarity currentWords
                                        (extractWords (Some (cardText c')))\<rparr>)"
    using cases dm by (elim disjE) simp_all
  have e: "length ?f \<le> limit"
    using cases by (elim disjE) (simp_all add: describedRelatedCards_def)
  have "sorted_wrt (\<lambda>a b. similarity b \<le> similarity a) ?d"
    unfolding describedRelatedCards_def
    by (rule sorted_wrt_take) (rule rankedCandidates_sorted)
  with cases have f: "sorted_wrt (\<lambda>a b. similarity b \<le> similarity a) ?f"
    by (elim disjE) simp_all
  have g: "?d = take limit (rankedCandidates c allCards threshold)"
    by (rule describedRelatedCards_def)
  have h: "\<forall>k. filter (\<lambda>item. similarity item = k) (rankedCandidates c allCards threshold)
             = filter (\<lambda>item. similarity item = k) (keptCandidates c allCards threshold)"
    by (simp add: rankedCandidates_stable)
  show ?thesis
    using a b c d e f g h by blast
qed

theorem findRelatedCards_ranking_witness:
  "extractWords (Some (cardText serviceCard)) \<noteq> {||}
   \<and> findRelatedCards serviceCard [serviceCard, auditCard, gatewayCard, plainCard] 5 0.2
       = describedRelatedCards serviceCard [serviceCard, auditCard, gatewayCard, plainCard] 5 0.2
   \<and> map (\<lambda>r. (s_id (r_card r), similarity r))
        (findRelatedCards serviceCard [serviceCard, auditCard, gatewayCard, plainCard] 5 0.2)
       = [(''b'', 1 / 2), (''c'', 1 / 5)]"
proof -
  have ne: "extractWords (Some (cardText serviceCard)) \<noteq> {||}" by code_simp
  have v: "map (\<lambda>r. (s_id (r_card r), similarity r))
        (findRelatedCards serviceCard [serviceCard, auditCard, gatewayCard, plainCard] 5 0.2)
       = [(''b'', 1 / 2), (''c'', 1 / 5)]" by code_simp
  note t = findRelatedCards_ranking [OF refl, of serviceCard
      "[serviceCard, auditCard, gatewayCard, plainCard]" 5 "0.2",
      THEN conjunct2, THEN conjunct1, rule_format, OF disjI1, OF ne]
  show ?thesis
    by (intro conjI) (rule ne, rule t, rule v)
qed

text \<open>
  The claim as stated fails for a threshold of 0 and a target without words: the
  described ranking keeps the other card at score 0, the function returns nothing.
\<close>

theorem findRelatedCards_threshold_zero_counterexample:
  "extractWords (Some (cardText todoCard)) = {||}
   \<and> findRelatedCards todoCard [todoCard, plainCard] 5 0 = []
   \<and> map (\<lambda>r. (s_id (r_card r), similarity r))
        (describedRelatedCards todoCard [todoCard, plainCard] 5 0) = [(''c1'', 0)]
   \<and> findRelatedCards todoCard [todoCard, plainCard] 5 0
       \<noteq> describedRelatedCards todoCard [todoCard, plainCard] 5 0"
proof -
  have w: "extractWords (Some (cardText todoCard)) = {||}" by code_simp
  have a: "findRelatedCards todoCard [todoCard, plainCard] 5 0 = []" by code_simp
  have b: "map (\<lambda>r. (s_id (r_card r), similarity r))
        (describedRelatedCards todoCard [todoCard, plainCard] 5 0) = [(''c1'', 0)]"
    by code_simp
  from b have "describedRelatedCards todoCard [todoCard, plainCard] 5 0 \<noteq> []" by auto
  with a have "findRelatedCards todoCard [todoCard, plainCard] 5 0
       \<noteq> describedRelatedCards todoCard [todoCard, plainCard] 5 0" by simp
  with w a b show ?thesis by blast
qed

section \<open>Properties of the orchestrator\<close>

text \<open>
  Claim C1. The result of \<^verbatim>\<open>analyzeCard\<close> carries \<^verbatim>\<open>smartTips\<close> if and only if it has
  no due-date suggestion, no list-movement suggestion and no related card; the tips are
  then the fixed list of three generic tips.
\<close>

theorem analyzeCard_smartTips:
  "(smartTips (analyzeCard tza now1 now2 c boardCards boardLists) \<noteq> None) =
     (suggestedDueDates (analyzeCard tza now1 now2 c boardCards boardLists) = []
      \<and> suggestedListMovement (analyzeCard tza now1 now2 c boardCards boardLists) = None
      \<and> relatedCards (analyzeCard tza now1 now2 c boardCards boardLists) = [])
   \<and> (smartTips (analyzeCard tza now1 now2 c boardCards boardLists) \<noteq> None \<longrightarrow>
        smartTips (analyzeCard tza now1 now2 c boardCards boardLists) = Some genericTips)
   \<and> length genericTips = 3"
  by (simp add: analyzeCard_def Let_def genericTips_def)

theorem analyzeCard_smartTips_witness:
  "suggestedDueDates
      (analyzeCard 0 1793700000000 1793700000001 plainCard [plainCard, otherCard] someLists) = []
   \<and> suggestedListMovement
      (analyzeCard 0 1793700000000 1793700000001 plainCard [plainCard, otherCard] someLists) = None
   \<and> relatedCards
      (analyzeCard 0 1793700000000 1793700000001 plainCard [plainCard, otherCard] someLists) = []
   \<and> smartTips
      (analyzeCard 0 1793700000000 1793700000001 plainCard [plainCard, otherCard] someLists)
     = Some genericTips"
proof -
  have r0: "findRelatedCards plainCard [plainCard, otherCard] 5 0.2 = []" by code_simp
  have l0: "suggestListMovement plainCard someLists = None" by code_simp
  have p1: "parseDateKeywords 0 1793700000000 (c_title plainCard) = None" by code_simp
  have p2: "parseDateKeywords 0 1793700000001 (c_description plainCard) = None" by code_simp
  have d: "suggestedDueDates
      (analyzeCard 0 1793700000000 1793700000001 plainCard [plainCard, otherCard] someLists) = []"
    unfolding analyzeCard_def Let_def p1 p2 titleSuggestions_def descriptionSuggestions_def
    by simp
  have l: "suggestedListMovement
      (analyzeCard 0 1793700000000 1793700000001 plainCard [plainCard, otherCard] someLists) = None"
    unfolding analyzeCard_def Let_def l0 by simp
  have r: "relatedCards
      (analyzeCard 0 1793700000000 1793700000001 plainCard [plainCard, otherCard] someLists) = []"
    unfolding analyzeCard_def Let_def r0 by simp
  note t = analyzeCard_smartTips
    [of 0 1793700000000 1793700000001 plainCard "[plainCard, otherCard]" someLists]
  from t d l r have "smartTips
      (analyzeCard 0 1793700000000 1793700000001 plainCard [plainCard, otherCard] someLists)
      \<noteq> None" by blast
  with t have "smartTips
      (analyzeCard 0 1793700000000 1793700000001 plainCard [plainCard, otherCard] someLists)
     = Some genericTips" by blast
  with d l r show ?thesis by blast
qed

lemma suggestedDueDates_analyzeCard:
  "suggestedDueDates (analyzeCard tza now1 now2 c boardCards boardLists) =
     titleSuggestions c (parseDateKeywords tza now1 (c_title c))
     @ descriptionSuggestions c (parseDateKeywords tza now1 (c_title c))
         (parseDateKeywords tza now2 (c_description c))"
  by (simp add: analyzeCard_def Let_def)

text \<open>
  Claim C6. When the title parses to a date, the suggestions hold the title's date with
  confidence high. A suggestion from the description (confidence medium) is present
  exactly when the description parses to a date and either the title gave none or the
  two time values differ under \<^verbatim>\<open>!==\<close>. So a title and a description that parse to the
  same valid time value give exactly one suggestion. (The time value of an invalid date
  is \<^verbatim>\<open>NaN\<close>, which \<^verbatim>\<open>!==\<close> finds different from itself: an invalid title date never
  suppresses the description's suggestion.)
\<close>

theorem analyzeCard_dueDates:
  fixes titleDate descriptionDate :: "jsdate option" and ds :: "dateSuggestion list"
  assumes td: "titleDate = parseDateKeywords tza now1 (c_title c)"
    and dd: "descriptionDate = parseDateKeywords tza now2 (c_description c)"
    and ds: "ds = suggestedDueDates (analyzeCard tza now1 now2 c boardCards boardLists)"
  shows "(\<forall>d. titleDate = Some d \<longrightarrow>
            \<lparr>d_date = d, d_source = ''title'', d_confidence = ''high'',
              d_reason = extractDateReason (c_title c)\<rparr> \<in> set ds)
    \<and> ((\<exists>s\<in>set ds. d_source s = ''description'') \<longleftrightarrow>
         (descriptionDate \<noteq> None
          \<and> (titleDate = None \<or> timeDiffers (the descriptionDate) (the titleDate))))
    \<and> (\<forall>s\<in>set ds. d_source s = ''description'' \<longrightarrow>
           descriptionDate = Some (d_date s) \<and> d_confidence s = ''medium''
           \<and> d_reason s = extractDateReason (c_description c))
    \<and> (\<forall>s\<in>set ds. d_source s = ''title'' \<longrightarrow>
           titleDate = Some (d_date s) \<and> d_confidence s = ''high'')
    \<and> (\<forall>s\<in>set ds. d_source s = ''title'' \<or> d_source s = ''description'')
    \<and> (\<forall>t. titleDate = Some (Date t) \<and> descriptionDate = Some (Date t) \<longrightarrow> length ds = 1)
    \<and> (titleDate = Some InvalidDate \<and> descriptionDate \<noteq> None \<longrightarrow> length ds = 2)"
  unfolding ds suggestedDueDates_analyzeCard td [symmetric] dd [symmetric]
  by (cases titleDate; cases descriptionDate)
     (auto simp: titleSuggestions_def descriptionSuggestions_def timeDiffers_def
           split: jsdate.splits)

theorem analyzeCard_dueDates_witness:
  "parseDateKeywords 0 1793700000000 (c_title tomorrowCard) = Some (Date 1793836799999)
   \<and> parseDateKeywords 0 1793700000001 (c_description tomorrowCard) = Some (Date 1793836799999)
   \<and> length (suggestedDueDates
        (analyzeCard 0 1793700000000 1793700000001 tomorrowCard [tomorrowCard] someLists)) = 1
   \<and> \<lparr>d_date = Date 1793836799999, d_source = ''title'', d_confidence = ''high'',
        d_reason = extractDateReason (c_title tomorrowCard)\<rparr>
       \<in> set (suggestedDueDates
        (analyzeCard 0 1793700000000 1793700000001 tomorrowCard [tomorrowCard] someLists))"
proof -
  have p1: "parseDateKeywords 0 1793700000000 (c_title tomorrowCard) = Some (Date 1793836799999)"
    by code_simp
  have p2: "parseDateKeywords 0 1793700000001 (c_description tomorrowCard)
      = Some (Date 1793836799999)"
    by code_simp
  note t = analyzeCard_dueDates [OF p1 [symmetric] p2 [symmetric] refl,
      of "[tomorrowCard]" someLists]
  note t1 = t [THEN conjunct1, rule_format, OF refl]
  note t6 = t [THEN conjunct2, THEN conjunct2, THEN conjunct2, THEN conjunct2, THEN conjunct2,
      THEN conjunct1, rule_format, OF conjI, OF refl refl]
  show ?thesis
    by (intro conjI) (rule p1, rule p2, rule t6, rule t1)
qed

text \<open>A title and a description that both name a day beyond the range of \<^verbatim>\<open>Date\<close>
  each give a suggestion with an invalid date.\<close>

lemma invalid_dates_both_suggested:
  "length (suggestedDueDates (analyzeCard 0 1793700000000 1793700000001 farCard [] [])) = 2"
proof -
  have p1: "parseDateKeywords 0 1793700000000 (c_title farCard) = Some InvalidDate"
    by code_simp
  have p2: "parseDateKeywords 0 1793700000001 (c_description farCard) = Some InvalidDate"
    by code_simp
  show ?thesis
    unfolding suggestedDueDates_analyzeCard p1 p2
    by (simp add: titleSuggestions_def descriptionSuggestions_def timeDiffers_def)
qed

section \<open>Properties of the AI enrichment adapter\<close>

lemma jsonSpan_SomeD:
  assumes "jsonSpan reply = Some block"
  shows "\<exists>pre mid post. reply = pre @ CHR ''{'' # mid @ CHR ''}'' # post
           \<and> CHR ''{'' \<notin> set pre \<and> CHR ''}'' \<notin> set post
           \<and> block = CHR ''{'' # mid @ [CHR ''}'']"
proof -
  let ?open = "\<lambda>c. c \<noteq> CHR ''{''" and ?close = "\<lambda>c. c \<noteq> CHR ''}''"
  from assms obtain b rest where d1: "dropWhile ?open reply = b # rest"
    by (auto simp: jsonSpan_def split: list.splits)
  with assms obtain e body where d2: "dropWhile ?close (rev rest) = e # body"
    and blk: "block = b # rev (e # body)"
    by (auto simp: jsonSpan_def split: list.splits)
  have b: "b = CHR ''{''"
    using hd_dropWhile [of ?open reply] d1 by auto
  have e: "e = CHR ''}''"
    using hd_dropWhile [of ?close "rev rest"] d2 by auto
  have t: "reply = takeWhile ?open reply @ b # rest"
    using takeWhile_dropWhile_id [of ?open reply] d1 by simp
  have "rev rest = takeWhile ?close (rev rest) @ e # body"
    using takeWhile_dropWhile_id [of ?close "rev rest"] d2 by simp
  then have "rev (rev rest) = rev (takeWhile ?close (rev rest) @ e # body)" by simp
  then have r: "rest = rev body @ e # rev (takeWhile ?close (rev rest))" by simp
  have p1: "CHR ''{'' \<notin> set (takeWhile ?open reply)"
    by (auto dest: set_takeWhileD)
  have p2: "CHR ''}'' \<notin> set (rev (takeWhile ?close (rev rest)))"
    by (auto dest: set_takeWhileD)
  from t r have "reply = takeWhile ?open reply @ CHR ''{'' # rev body @ CHR ''}''
      # rev (takeWhile ?close (rev rest))"
    unfolding b e by simp
  with p1 p2 blk b e show ?thesis by (intro exI [of _ "takeWhile ?open reply"]
      exI [of _ "rev body"] exI [of _ "rev (takeWhile ?close (rev rest))"]) simp
qed

lemma jsonSpan_SomeI:
  assumes "CHR ''{'' \<notin> set pre" and "CHR ''}'' \<notin> set post"
  shows "jsonSpan (pre @ CHR ''{'' # mid @ CHR ''}'' # post) = Some (CHR ''{'' # mid @ [CHR ''}''])"
proof -
  have d1: "dropWhile (\<lambda>c. c \<noteq> CHR ''{'') (pre @ CHR ''{'' # mid @ CHR ''}'' # post)
      = CHR ''{'' # mid @ CHR ''}'' # post"
    using assms(1) by (subst dropWhile_append2) auto
  have "dropWhile (\<lambda>c. c \<noteq> CHR ''}'') (rev post @ CHR ''}'' # rev mid) = CHR ''}'' # rev mid"
    using assms(2) by (subst dropWhile_append2) auto
  then have d2: "dropWhile (\<lambda>c. c \<noteq> CHR ''}'') (rev (mid @ CHR ''}'' # post)) = CHR ''}'' # rev mid"
    by simp
  show ?thesis
    unfolding jsonSpan_def d1 by (simp only: list.case d2) simp
qed

lemma rev_split: "c = rev (dropWhile P (rev c)) @ rev (takeWhile P (rev c))"
proof -
  have "rev (takeWhile P (rev c) @ dropWhile P (rev c)) = c" by simp
  then show ?thesis by (simp only: rev_append)
qed

lemma jsonSpan_None_iff:
  "jsonSpan reply = None \<longleftrightarrow> \<not> (\<exists>a b c. reply = a @ CHR ''{'' # b @ CHR ''}'' # c)"
proof
  assume n: "jsonSpan reply = None"
  show "\<not> (\<exists>a b c. reply = a @ CHR ''{'' # b @ CHR ''}'' # c)"
  proof
    assume "\<exists>a b c. reply = a @ CHR ''{'' # b @ CHR ''}'' # c"
    then obtain a b c where t: "reply = a @ CHR ''{'' # b @ CHR ''}'' # c" by blast
    let ?open = "\<lambda>c. c \<noteq> CHR ''{''" and ?close = "\<lambda>c. c \<noteq> CHR ''}''"
    define pre where "pre = takeWhile ?open a"
    show False
    proof (cases "CHR ''{'' \<in> set a")
      case False
      define post where "post = rev (takeWhile ?close (rev c))"
      have pc: "CHR ''}'' \<notin> set post"
        unfolding post_def by (auto dest: set_takeWhileD)
      have c: "c = rev (dropWhile ?close (rev c)) @ post"
        unfolding post_def by (rule rev_split)
      show False
      proof (cases "dropWhile ?close (rev c)")
        case Nil
        with c have "c = post" by simp
        with t have "reply = a @ CHR ''{'' # b @ CHR ''}'' # post" by simp
        with jsonSpan_SomeI [OF False pc, of b] n show False by simp
      next
        case (Cons e body)
        have e: "e = CHR ''}''"
          using hd_dropWhile [of ?close "rev c"] Cons by auto
        from c Cons e have "c = rev body @ CHR ''}'' # post" by simp
        with t have "reply = a @ CHR ''{'' # (b @ CHR ''}'' # rev body) @ CHR ''}'' # post"
          by simp
        with jsonSpan_SomeI [OF False pc, of "b @ CHR ''}'' # rev body"] n show False
          by simp
      qed
    next
      case True
      then have dn: "dropWhile ?open a \<noteq> []" by auto
      then obtain x rest where d: "dropWhile ?open a = x # rest" by (cases "dropWhile ?open a") auto
      have x: "x = CHR ''{''" using hd_dropWhile [of ?open a] d by auto
      have a: "a = pre @ CHR ''{'' # rest"
        using takeWhile_dropWhile_id [of ?open a] d x unfolding pre_def by simp
      have pp: "CHR ''{'' \<notin> set pre" unfolding pre_def by (auto dest: set_takeWhileD)
      define post where "post = rev (takeWhile ?close (rev c))"
      have pc: "CHR ''}'' \<notin> set post"
        unfolding post_def by (auto dest: set_takeWhileD)
      have c: "c = rev (dropWhile ?close (rev c)) @ post"
        unfolding post_def by (rule rev_split)
      obtain mid where "reply = pre @ CHR ''{'' # mid @ CHR ''}'' # post"
      proof (cases "dropWhile ?close (rev c)")
        case Nil
        with c have "c = post" by simp
        with t a have "reply = pre @ CHR ''{'' # (rest @ CHR ''{'' # b) @ CHR ''}'' # post" by simp
        then show ?thesis by (rule that)
      next
        case (Cons e body)
        have e: "e = CHR ''}''"
          using hd_dropWhile [of ?close "rev c"] Cons by auto
        from c Cons e have "c = rev body @ CHR ''}'' # post" by simp
        with t a have "reply = pre @ CHR ''{'' # (rest @ CHR ''{'' # b @ CHR ''}'' # rev body)
            @ CHR ''}'' # post" by simp
        then show ?thesis by (rule that)
      qed
      with jsonSpan_SomeI [OF pp pc] n show False by simp
    qed
  qed
next
  assume n: "\<not> (\<exists>a b c. reply = a @ CHR ''{'' # b @ CHR ''}'' # c)"
  then show "jsonSpan reply = None"
  proof (cases "jsonSpan reply")
    case None
    then show ?thesis .
  next
    case (Some block)
    from jsonSpan_SomeD [OF Some] n show ?thesis by blast
  qed
qed

text \<open>
  Claim C7, as amended. The adapter takes from the reply the span from its first opening
  brace to its last closing brace and gives it to the JSON parser. It returns nothing,
  and raises nothing, when the service key is unset (or is the word "undefined"), when
  the call fails, when the reply has no text, when the reply has no opening brace with a
  closing brace after it, and when the parser rejects the span; otherwise it returns the
  parsed value, which \<^verbatim>\<open>getCardInsights\<close> wraps (and nothing when that value is falsy).
\<close>

theorem getAISuggestions_contract:
  "(falsyText apiKey \<or> apiKey = Some ''undefined'' \<longrightarrow>
       getAISuggestions apiKey outcome parse = None)
   \<and> getAISuggestions apiKey CallFails parse = None
   \<and> getAISuggestions apiKey (Reply None) parse = None
   \<and> (jsonSpan reply = None \<longrightarrow> getAISuggestions apiKey (Reply (Some reply)) parse = None)
   \<and> (\<forall>block. jsonSpan reply = Some block \<and> parse block = None \<longrightarrow>
          getAISuggestions apiKey (Reply (Some reply)) parse = None)
   \<and> (\<forall>block. \<not> falsyText apiKey \<and> apiKey \<noteq> Some ''undefined''
          \<and> jsonSpan reply = Some block \<longrightarrow>
          getAISuggestions apiKey (Reply (Some reply)) parse = parse block)
   \<and> (\<forall>block. jsonSpan reply = Some block \<longleftrightarrow>
          (\<exists>pre mid post. reply = pre @ CHR ''{'' # mid @ CHR ''}'' # post
             \<and> CHR ''{'' \<notin> set pre \<and> CHR ''}'' \<notin> set post
             \<and> block = CHR ''{'' # mid @ [CHR ''}'']))
   \<and> (jsonSpan reply = None \<longleftrightarrow> \<not> (\<exists>a b c. reply = a @ CHR ''{'' # b @ CHR ''}'' # c))
   \<and> (getAISuggestions apiKey outcome parse = None \<longrightarrow>
         getCardInsights apiKey outcome parse = None)
   \<and> (\<forall>s. getAISuggestions apiKey outcome parse = Some s \<and> \<not> falsyJson s \<longrightarrow>
         getCardInsights apiKey outcome parse
         = Some \<lparr>aiPowered = True, dueDateSuggestion = getField s ''dueDateSuggestion'',
                  listMovement = getField s ''listMovement'',
                  insights = getField s ''insights''\<rparr>)"
proof (intro conjI allI impI)
  show "getAISuggestions apiKey outcome parse = None"
    if "falsyText apiKey \<or> apiKey = Some ''undefined''"
    using that by (auto simp: getAISuggestions_def)
  show "getAISuggestions apiKey CallFails parse = None"
    by (simp add: getAISuggestions_def)
  show "getAISuggestions apiKey (Reply None) parse = None"
    by (simp add: getAISuggestions_def)
  show "getAISuggestions apiKey (Reply (Some reply)) parse = None" if "jsonSpan reply = None"
    using that by (simp add: getAISuggestions_def)
  show "getAISuggestions apiKey (Reply (Some reply)) parse = None"
    if "jsonSpan reply = Some block \<and> parse block = None" for block
    using that by (simp add: getAISuggestions_def)
  show "getAISuggestions apiKey (Reply (Some reply)) parse = parse block"
    if "\<not> falsyText apiKey \<and> apiKey \<noteq> Some ''undefined'' \<and> jsonSpan reply = Some block"
    for block
    using that by (simp add: getAISuggestions_def)
  show "jsonSpan reply = Some block \<longleftrightarrow>
          (\<exists>pre mid post. reply = pre @ CHR ''{'' # mid @ CHR ''}'' # post
             \<and> CHR ''{'' \<notin> set pre \<and> CHR ''}'' \<notin> set post
             \<and> block = CHR ''{'' # mid @ [CHR ''}''])" for block
    using jsonSpan_SomeD [of reply block] jsonSpan_SomeI by blast
  show "jsonSpan reply = None \<longleftrightarrow> \<not> (\<exists>a b c. reply = a @ CHR ''{'' # b @ CHR ''}'' # c)"
    by (rule jsonSpan_None_iff)
  show "getCardInsights apiKey outcome parse = None"
    if "getAISuggestions apiKey outcome parse = None"
    using that by (simp add: getCardInsights_def)
  show "getCardInsights apiKey outcome parse
         = Some \<lparr>aiPowered = True, dueDateSuggestion = getField s ''dueDateSuggestion'',
                  listMovement = getField s ''listMovement'',
                  insights = getField s ''insights''\<rparr>"
    if "getAISuggestions apiKey outcome parse = Some s \<and> \<not> falsyJson s" for s
    using that by (simp add: getCardInsights_def)
qed

theorem getAISuggestions_contract_witness:
  "jsonSpan ''Here: {} done'' = Some ''{}''
   \<and> getAISuggestions (Some ''key'') (Reply (Some ''Here: {} done'')) emptyObjectParser
       = Some (JObj [])
   \<and> falsyText None
   \<and> getAISuggestions None (Reply (Some ''Here: {} done'')) emptyObjectParser = None
   \<and> jsonSpan ''no braces here'' = None
   \<and> getAISuggestions (Some ''key'') (Reply (Some ''no braces here'')) emptyObjectParser = None"
proof -
  have s: "jsonSpan ''Here: {} done'' = Some ''{}''" by code_simp
  have n: "jsonSpan ''no braces here'' = None" by code_simp
  have k: "\<not> falsyText (Some ''key'') \<and> Some ''key'' \<noteq> Some ''undefined''
      \<and> jsonSpan ''Here: {} done'' = Some ''{}''"
    using s by (simp add: falsyText_def)
  have f: "falsyText None" by (simp add: falsyText_def)
  have p: "emptyObjectParser ''{}'' = Some (JObj [])" by (simp add: emptyObjectParser_def)
  note t1 = getAISuggestions_contract [of "Some ''key''" "Reply None" emptyObjectParser
      "''Here: {} done''"]
  note a = t1 [THEN conjunct2, THEN conjunct2, THEN conjunct2, THEN conjunct2, THEN conjunct2,
      THEN conjunct1, rule_format, OF k]
  note t2 = getAISuggestions_contract [of None "Reply (Some ''Here: {} done'')"
      emptyObjectParser "''Here: {} done''"]
  note b = t2 [THEN conjunct1, rule_format, OF disjI1, OF f]
  note t3 = getAISuggestions_contract [of "Some ''key''" "Reply None" emptyObjectParser
      "''no braces here''"]
  note c = t3 [THEN conjunct2, THEN conjunct2, THEN conjunct2, THEN conjunct1, rule_format, OF n]
  show ?thesis
    by (intro conjI) (rule s, simp only: a p, rule f, rule b, rule n, rule c)
qed

text \<open>
  The span is not the first balanced block: in a reply with two objects the first balanced
  block is the first object, which parses, while the span runs to the last closing brace
  and is rejected by the parser, so the adapter returns nothing.
\<close>

theorem first_balanced_block_counterexample:
  "firstBalancedBlock ''{} or {}'' = Some ''{}''
   \<and> emptyObjectParser ''{}'' = Some (JObj [])
   \<and> jsonSpan ''{} or {}'' = Some ''{} or {}''
   \<and> getAISuggestions (Some ''key'') (Reply (Some ''{} or {}'')) emptyObjectParser = None
   \<and> getCardInsights (Some ''key'') (Reply (Some ''{} or {}'')) emptyObjectParser = None"
proof -
  have a: "firstBalancedBlock ''{} or {}'' = Some ''{}''" by code_simp
  have b: "emptyObjectParser ''{}'' = Some (JObj [])" by (simp add: emptyObjectParser_def)
  have c: "jsonSpan ''{} or {}'' = Some ''{} or {}''" by code_simp
  have p: "emptyObjectParser ''{} or {}'' = None" by (simp add: emptyObjectParser_def)
  have d: "getAISuggestions (Some ''key'') (Reply (Some ''{} or {}'')) emptyObjectParser = None"
    by (simp add: getAISuggestions_def falsyText_def c p)
  have e: "getCardInsights (Some ''key'') (Reply (Some ''{} or {}'')) emptyObjectParser = None"
    by (simp add: getCardInsights_def d)
  show ?thesis
    by (intro conjI) (rule a, rule b, rule c, rule d, rule e)
qed

section \<open>Cards without a description\<close>

text \<open>
  Claim C8 says that an undefined title or description contributes nothing to any
  operation. The tokenizer does give the empty set for an undefined text, but
  \<^verbatim>\<open>findRelatedCards\<close> never hands it one: it tokenizes the interpolated text, in which an
  undefined field is the word "undefined". Two cards without a description, with the
  unrelated titles "Fix" and "Buy", share that word and are reported as related with
  similarity 1/3, so that \<^verbatim>\<open>analyzeCard\<close> reports a related card and no tips; with empty
  descriptions in their place nothing is related.
\<close>

theorem undefined_description_is_a_word:
  "extractWords None = {||}
   \<and> cardText fixCard = ''Fix undefined''
   \<and> extractWords (Some (cardText fixCard)) = {|''fix'', ''undefined''|}
   \<and> extractWords (Some (cardText buyCard)) = {|''buy'', ''undefined''|}
   \<and> map (\<lambda>r. (s_id (r_card r), similarity r))
         (findRelatedCards fixCard [fixCard, buyCard] 5 0.2) = [(''c8'', 1 / 3)]
   \<and> findRelatedCards (fixCard\<lparr>c_description := Some []\<rparr>)
         [fixCard\<lparr>c_description := Some []\<rparr>, buyCard\<lparr>c_description := Some []\<rparr>] 5 0.2 = []
   \<and> map (\<lambda>r. (s_id (r_card r), similarity r))
         (relatedCards (analyzeCard 0 1793700000000 1793700000001 fixCard [fixCard, buyCard]
            someLists)) = [(''c8'', 1 / 3)]
   \<and> smartTips (analyzeCard 0 1793700000000 1793700000001 fixCard [fixCard, buyCard]
         someLists) = None"
proof -
  have a: "extractWords None = {||}" by (simp add: extractWords_def falsyText_def)
  have b: "cardText fixCard = ''Fix undefined''" by code_simp
  have c: "extractWords (Some (cardText fixCard)) = {|''fix'', ''undefined''|}" by code_simp
  have d: "extractWords (Some (cardText buyCard)) = {|''buy'', ''undefined''|}" by code_simp
  have e: "map (\<lambda>r. (s_id (r_card r), similarity r))
         (findRelatedCards fixCard [fixCard, buyCard] 5 0.2) = [(''c8'', 1 / 3)]" by code_simp
  have f: "findRelatedCards (fixCard\<lparr>c_description := Some []\<rparr>)
         [fixCard\<lparr>c_description := Some []\<rparr>, buyCard\<lparr>c_description := Some []\<rparr>] 5 0.2 = []"
    by code_simp
  have r: "relatedCards (analyzeCard 0 1793700000000 1793700000001 fixCard [fixCard, buyCard]
            someLists) = findRelatedCards fixCard [fixCard, buyCard] 5 0.2"
    by (simp add: analyzeCard_def Let_def)
  have g: "map (\<lambda>r. (s_id (r_card r), similarity r))
         (relatedCards (analyzeCard 0 1793700000000 1793700000001 fixCard [fixCard, buyCard]
            someLists)) = [(''c8'', 1 / 3)]"
    unfolding r by (rule e)
  from e have ne: "findRelatedCards fixCard [fixCard, buyCard] 5 0.2 \<noteq> []" by auto
  have h: "smartTips (analyzeCard 0 1793700000000 1793700000001 fixCard [fixCard, buyCard]
         someLists) = None"
    using ne by (simp add: analyzeCard_def Let_def)
  show ?thesis
    by (intro conjI) (rule a, rule b, rule c, rule d, rule e, rule f, rule g, rule h)
qed

end
